theory Spec2Isabelle
  imports Main
begin

section \<open>Data model of app\_main.c\<close>

text \<open>
  The firmware is one C file. Its core is the RainMaker write callback \<open>write_cb\<close>
  (the command router), the driver helper \<open>app_driver_set_gpio\<close> and the endless loop of
  \<open>ir_sensor_task\<close> (the alarm/door state machine). The SDK functions they call are
  external; each call is recorded as an event, and its effect on the hardware lines and on
  the cloud-visible parameters is kept in the state.
\<close>

datatype esp_err = ESP_OK | ESP_FAIL | ESP_ERR_INVALID_ARG

text \<open>The three pins: \<open>GPIO_NUM_2\<close>, \<open>GPIO_NUM_3\<close>, \<open>GPIO_NUM_4\<close>.\<close>

datatype gpio_num = LED_GPIO | IR_SENSOR_GPIO | BUZZER_GPIO

text \<open>
  A RainMaker parameter is identified by the name of its device and its own name; a
  parameter handle (\<open>esp_rmaker_param_t *\<close>) is such a pair, and \<open>NULL\<close> is \<open>None\<close>.
  Values are built by \<open>esp_rmaker_bool\<close> and \<open>esp_rmaker_str\<close>.
\<close>

type_synonym param = "string \<times> string"

datatype param_val = BoolVal bool | StrVal string

definition light_power :: param where
  "light_power = (''Home Light'', ''Power'')"

definition alarm_power :: param where
  "alarm_power = (''Alarm System'', ''Power'')"

definition door_status :: param where
  "door_status = (''Door Sensor Status'', ''Door Status'')"

definition alarm_triggered :: param where
  "alarm_triggered = (''Door Sensor Status'', ''Alarm Triggered'')"

text \<open>Every call that leaves the firmware, in program order.\<close>

datatype event =
    GpioSet gpio_num nat
  | ParamUpdate param param_val
  | Delay nat
  | RaiseAlert string
  | DiagEvent string string
  | LogW string

text \<open>
  The globals \<open>alarm_enabled\<close>, \<open>led_state\<close>, \<open>door_status_param\<close>, \<open>alarm_trigger_param\<close>,
  the two locals of \<open>ir_sensor_task\<close> that live across loop iterations
  (\<open>previous_sensor_state\<close>, \<open>notification_sent\<close>), the output lines, and the parameter
  values held by the RainMaker agent (\<open>sink\<close>). \<open>gpio_set_level_rc\<close> is the environment:
  the code \<open>gpio_set_level\<close> returns for a pin; a line that reports an error keeps its level.
\<close>

record sys =
  alarm_enabled :: bool
  led_state :: bool
  door_status_param :: "param option"
  alarm_trigger_param :: "param option"
  previous_sensor_state :: int
  notification_sent :: bool
  led_level :: nat
  buzzer_level :: nat
  gpio_set_level_rc :: "gpio_num \<Rightarrow> esp_err"
  sink :: "param \<Rightarrow> param_val option"

type_synonym effect = "sys \<Rightarrow> sys \<times> event list"

section \<open>Statement sequencing\<close>

definition emit :: "event \<Rightarrow> effect" where
  "emit e s = (s, [e])"

fun block :: "effect list \<Rightarrow> effect" where
  "block [] s = (s, [])"
| "block (f # fs) s =
     (let (s1, e1) = f s; (s2, e2) = block fs s1 in (s2, e1 @ e2))"

definition if_then_else :: "(sys \<Rightarrow> bool) \<Rightarrow> effect \<Rightarrow> effect \<Rightarrow> effect" where
  "if_then_else c f g s = (if c s then f s else g s)"

definition if_then :: "(sys \<Rightarrow> bool) \<Rightarrow> effect \<Rightarrow> effect" where
  "if_then c f = if_then_else c f (block [])"

text \<open>A call whose \<open>esp_err_t\<close> result the caller drops.\<close>

definition discard :: "(sys \<Rightarrow> esp_err \<times> sys \<times> event list) \<Rightarrow> effect" where
  "discard f s = snd (f s)"

section \<open>SDK calls\<close>

definition level_of :: "bool \<Rightarrow> nat" where
  "level_of b = (if b then 1 else 0)"

definition gpio_set_level :: "gpio_num \<Rightarrow> nat \<Rightarrow> sys \<Rightarrow> esp_err \<times> sys \<times> event list" where
  "gpio_set_level pin level s =
     (gpio_set_level_rc s pin,
      (if gpio_set_level_rc s pin = ESP_OK then
         (case pin of
            LED_GPIO \<Rightarrow> s\<lparr>led_level := level\<rparr>
          | BUZZER_GPIO \<Rightarrow> s\<lparr>buzzer_level := level\<rparr>
          | IR_SENSOR_GPIO \<Rightarrow> s)
       else s),
      [GpioSet pin level])"

definition esp_rmaker_param_update :: "param \<Rightarrow> param_val \<Rightarrow> effect" where
  "esp_rmaker_param_update p v s = (s\<lparr>sink := (sink s)(p \<mapsto> v)\<rparr>, [ParamUpdate p v])"

text \<open>The guarded update \<open>if (h) esp_rmaker_param_update(h, v);\<close> on a global handle.\<close>

definition update_if_set :: "(sys \<Rightarrow> param option) \<Rightarrow> param_val \<Rightarrow> effect" where
  "update_if_set h v s =
     (case h s of None \<Rightarrow> (s, []) | Some p \<Rightarrow> esp_rmaker_param_update p v s)"

definition vTaskDelay :: "nat \<Rightarrow> effect" where
  "vTaskDelay ms = emit (Delay ms)"

definition esp_rmaker_raise_alert :: "string \<Rightarrow> effect" where
  "esp_rmaker_raise_alert msg = emit (RaiseAlert msg)"

definition ESP_DIAG_EVENT :: "string \<Rightarrow> string \<Rightarrow> effect" where
  "ESP_DIAG_EVENT tag msg = emit (DiagEvent tag msg)"

definition ESP_LOGW :: "string \<Rightarrow> effect" where
  "ESP_LOGW msg = emit (LogW msg)"

section \<open>Driver helper\<close>

text \<open>
  \<open>app_driver_set_gpio\<close>: the result of \<open>gpio_set_level\<close> is dropped, \<open>led_state\<close> is
  stored, and the function fails only for a parameter name other than \<open>"Power"\<close>.
\<close>

definition app_driver_set_gpio :: "string \<Rightarrow> bool \<Rightarrow> sys \<Rightarrow> esp_err \<times> sys \<times> event list" where
  "app_driver_set_gpio param_name val s =
     (if param_name = ''Power'' then
        (let (s1, es) =
           block [discard (gpio_set_level LED_GPIO (if val then 1 else 0)),
                  (\<lambda>s. (s\<lparr>led_state := val\<rparr>, [])),
                  ESP_DIAG_EVENT ''LIGHT_ACTION''
                    (''Light Power -> '' @ (if val then ''ON'' else ''OFF''))] s
         in (ESP_OK, s1, es))
      else (ESP_FAIL, s, []))"

section \<open>Command router\<close>

text \<open>
  \<open>write_cb\<close> receives the device and the parameter of the write; \<open>dev_name\<close> and
  \<open>param_name\<close> are their names, so the handle \<open>param\<close> of the call is the pair of both.
  A test \<open>strcmp(a, b) == 0\<close> is equality of the two names. The written value is read
  as \<open>val.val.b\<close>.
\<close>

definition write_cb :: "string \<Rightarrow> string \<Rightarrow> bool \<Rightarrow> sys \<Rightarrow> esp_err \<times> sys \<times> event list" where
  "write_cb dev_name param_name val s =
     (if dev_name = ''Home Light'' \<and> param_name = ''Power'' then
        (let (rc, s1, e1) = app_driver_set_gpio param_name val s;
             (s2, e2) =
               (if rc = ESP_OK
                then esp_rmaker_param_update (dev_name, param_name) (BoolVal val) s1
                else ESP_LOGW ''Failed to apply power for Home Light'' s1)
         in (ESP_OK, s2, e1 @ e2))
      else if dev_name = ''Alarm System'' \<and> param_name = ''Power'' then
        (let (s1, es) =
           block [(\<lambda>s. (s\<lparr>alarm_enabled := val\<rparr>, [])),
                  (\<lambda>s. ESP_DIAG_EVENT ''ALARM_ACTION''
                     (''Alarm System set to: '' @ (if alarm_enabled s then ''ON'' else ''OFF'')) s),
                  if_then (\<lambda>s. \<not> alarm_enabled s)
                    (block [update_if_set door_status_param (StrVal ''CLOSED''),
                            update_if_set alarm_trigger_param (BoolVal False),
                            discard (gpio_set_level BUZZER_GPIO 0),
                            (\<lambda>s. discard (gpio_set_level LED_GPIO (if led_state s then 1 else 0)) s)]),
                  esp_rmaker_param_update (dev_name, param_name) (BoolVal val)] s
         in (ESP_OK, s1, es))
      else (ESP_OK, s, []))"

section \<open>The IR sensor task\<close>

text \<open>Part 1 of the loop body: door state handling (edge detection).\<close>

definition door_state_handling :: "int \<Rightarrow> effect" where
  "door_state_handling sensor_value =
     if_then (\<lambda>s. sensor_value \<noteq> previous_sensor_state s)
       (block [
          if_then_else (\<lambda>s. sensor_value = 1)
            (block [ESP_DIAG_EVENT ''DOOR_ACTION'' ''Door Sensor: OPENED'',
                    update_if_set door_status_param (StrVal ''OPENED''),
                    (\<lambda>s. (s\<lparr>notification_sent := False\<rparr>, []))])
            (block [ESP_DIAG_EVENT ''DOOR_ACTION'' ''Door Sensor: CLOSED'',
                    update_if_set door_status_param (StrVal ''CLOSED''),
                    update_if_set alarm_trigger_param (BoolVal False),
                    (\<lambda>s. (s\<lparr>notification_sent := False\<rparr>, []))]),
          (\<lambda>s. (s\<lparr>previous_sensor_state := sensor_value\<rparr>, []))])"

text \<open>The armed, door-open branch; it ends in \<open>continue\<close>.\<close>

definition alarm_triggered_branch :: effect where
  "alarm_triggered_branch =
     block [update_if_set alarm_trigger_param (BoolVal True),
            discard (gpio_set_level BUZZER_GPIO 1),
            (\<lambda>s. discard (gpio_set_level LED_GPIO (if led_state s then 0 else 1)) s),
            vTaskDelay 150,
            (\<lambda>s. discard (gpio_set_level LED_GPIO (level_of (led_state s))) s),
            vTaskDelay 150,
            if_then (\<lambda>s. \<not> notification_sent s)
              (block [esp_rmaker_raise_alert ''Door opened while alarm is ON!'',
                      ESP_DIAG_EVENT ''SECURITY_ALERT'' ''Intrusion detected'',
                      (\<lambda>s. (s\<lparr>notification_sent := True\<rparr>, []))])]"

text \<open>The armed, door-closed branch.\<close>

definition door_closed_branch :: effect where
  "door_closed_branch =
     block [discard (gpio_set_level BUZZER_GPIO 0),
            (\<lambda>s. discard (gpio_set_level LED_GPIO (level_of (led_state s))) s)]"

text \<open>Part 3: alarm off, full reset.\<close>

definition alarm_off_reset :: effect where
  "alarm_off_reset =
     block [update_if_set door_status_param (StrVal ''CLOSED''),
            update_if_set alarm_trigger_param (BoolVal False),
            discard (gpio_set_level BUZZER_GPIO 0),
            (\<lambda>s. discard (gpio_set_level LED_GPIO (level_of (led_state s))) s)]"

text \<open>
  Part 2 with the delay at the bottom of the loop: the armed, door-open branch leaves the
  iteration by \<open>continue\<close>, the other two branches fall through to \<open>vTaskDelay(200 ms)\<close>.
\<close>

definition alarm_behavior :: "int \<Rightarrow> effect" where
  "alarm_behavior sensor_value =
     if_then_else alarm_enabled
       (if_then_else (\<lambda>s. sensor_value = 1)
          alarm_triggered_branch
          (block [door_closed_branch, vTaskDelay 200]))
       (block [alarm_off_reset, vTaskDelay 200])"

text \<open>
  One iteration of \<open>while (1)\<close>; \<open>sensor_value\<close> is what \<open>gpio_get_level(IR\_SENSOR\_GPIO)\<close>
  returned at its start.
\<close>

definition ir_sensor_tick :: "int \<Rightarrow> effect" where
  "ir_sensor_tick sensor_value = block [door_state_handling sensor_value, alarm_behavior sensor_value]"

section \<open>Boot state and executions\<close>

text \<open>
  The state when \<open>app_main\<close> has started the task: the globals at their initialisers, both
  lines low (\<open>app_driver_init\<close>), each parameter that was created at the value it was
  created with. \<open>door_ok\<close> and \<open>trig_ok\<close> say whether \<open>esp_rmaker_param_create\<close> returned a
  handle for "Door Status" and for "Alarm Triggered"; a parameter that was not created has
  no value in the sink.
\<close>

definition boot :: "bool \<Rightarrow> bool \<Rightarrow> (gpio_num \<Rightarrow> esp_err) \<Rightarrow> sys" where
  "boot door_ok trig_ok rc =
     \<lparr> alarm_enabled = False,
       led_state = False,
       door_status_param = (if door_ok then Some door_status else None),
       alarm_trigger_param = (if trig_ok then Some alarm_triggered else None),
       previous_sensor_state = - 1,
       notification_sent = False,
       led_level = 0,
       buzzer_level = 0,
       gpio_set_level_rc = rc,
       sink = (\<lambda>p. if p = light_power \<or> p = alarm_power then Some (BoolVal False)
                   else if p = door_status \<and> door_ok then Some (StrVal ''CLOSED'')
                   else if p = alarm_triggered \<and> trig_ok then Some (BoolVal False)
                   else None) \<rparr>"

text \<open>
  A serial execution is a sequence of loop iterations (each with its sensor reading) and
  router calls in which each one runs to completion before the next begins; each is one
  step here. Executions in which a router call lands inside an iteration are those of the
  statement-level machine below.
\<close>

datatype action = Tick int | Write string string bool

fun step :: "action \<Rightarrow> effect" where
  "step (Tick sensor_value) s = ir_sensor_tick sensor_value s"
| "step (Write dev_name param_name val) s = snd (write_cb dev_name param_name val s)"

fun run :: "action list \<Rightarrow> effect" where
  "run [] s = (s, [])"
| "run (a # as) s = (let (s1, e1) = step a s; (s2, e2) = run as s1 in (s2, e1 @ e2))"

definition is_alert :: "event \<Rightarrow> bool" where
  "is_alert e = (case e of RaiseAlert m \<Rightarrow> True | _ \<Rightarrow> False)"

text \<open>Two environments: every line accepts a write, or the LED line rejects it.\<close>

definition lines_ok :: "gpio_num \<Rightarrow> esp_err" where
  "lines_ok pin = ESP_OK"

definition led_stuck :: "gpio_num \<Rightarrow> esp_err" where
  "led_stuck pin = (if pin = LED_GPIO then ESP_FAIL else ESP_OK)"

text \<open>An open episode: every loop iteration in it reads the sensor as 1; writes are free.\<close>

fun reads_open :: "action \<Rightarrow> bool" where
  "reads_open (Tick sensor_value) = (sensor_value = 1)"
| "reads_open (Write dev_name param_name val) = True"

definition open_episode :: "action list \<Rightarrow> bool" where
  "open_episode acts = list_all reads_open acts"

definition is_opened_push :: "event \<Rightarrow> bool" where
  "is_opened_push e = (case e of ParamUpdate p v \<Rightarrow> v = StrVal ''OPENED'' | _ \<Rightarrow> False)"

text \<open>
  A state of the running system: after boot the alarm is armed by a write and one
  iteration reads the door open, so the alarm is sounding and the alert has been raised.
\<close>

definition alarm_ringing :: sys where
  "alarm_ringing =
     fst (run [Write ''Alarm System'' ''Power'' True, Tick 1] (boot True True lines_ok))"

section \<open>Statement-level execution\<close>

text \<open>
  \<open>write_cb\<close> is called from another FreeRTOS task than \<open>ir_sensor_task\<close>, and the file takes
  no lock: a router call can land between any two statements of a loop iteration, and an
  iteration between any two statements of a router call. For this, the same code is also
  given as lists of atomic statements: a statement is one SDK call or one assignment, a
  branch is one test of the state as it is when the test is reached.
\<close>

datatype instr = Stmt effect | Branch "sys \<Rightarrow> bool" "instr list" "instr list"

text \<open>Running a list of statements with nothing in between.\<close>

fun exec_instr :: "instr \<Rightarrow> effect" and exec_list :: "instr list \<Rightarrow> effect" where
  "exec_instr (Stmt f) s = f s"
| "exec_instr (Branch c a b) s = (if c s then exec_list a s else exec_list b s)"
| "exec_list [] s = (s, [])"
| "exec_list (i # k) s =
     (let (s1, e1) = exec_instr i s; (s2, e2) = exec_list k s1 in (s2, e1 @ e2))"

text \<open>The loop body of \<open>ir_sensor_task\<close>, statement by statement.\<close>

definition door_state_handling_prog :: "int \<Rightarrow> instr list" where
  "door_state_handling_prog sensor_value =
     [Branch (\<lambda>s. sensor_value \<noteq> previous_sensor_state s)
        [Branch (\<lambda>s. sensor_value = 1)
           [Stmt (ESP_DIAG_EVENT ''DOOR_ACTION'' ''Door Sensor: OPENED''),
            Stmt (update_if_set door_status_param (StrVal ''OPENED'')),
            Stmt (\<lambda>s. (s\<lparr>notification_sent := False\<rparr>, []))]
           [Stmt (ESP_DIAG_EVENT ''DOOR_ACTION'' ''Door Sensor: CLOSED''),
            Stmt (update_if_set door_status_param (StrVal ''CLOSED'')),
            Stmt (update_if_set alarm_trigger_param (BoolVal False)),
            Stmt (\<lambda>s. (s\<lparr>notification_sent := False\<rparr>, []))],
         Stmt (\<lambda>s. (s\<lparr>previous_sensor_state := sensor_value\<rparr>, []))]
        []]"

definition alarm_triggered_prog :: "instr list" where
  "alarm_triggered_prog =
     [Stmt (update_if_set alarm_trigger_param (BoolVal True)),
      Stmt (discard (gpio_set_level BUZZER_GPIO 1)),
      Stmt (\<lambda>s. discard (gpio_set_level LED_GPIO (if led_state s then 0 else 1)) s),
      Stmt (vTaskDelay 150),
      Stmt (\<lambda>s. discard (gpio_set_level LED_GPIO (level_of (led_state s))) s),
      Stmt (vTaskDelay 150),
      Branch (\<lambda>s. \<not> notification_sent s)
        [Stmt (esp_rmaker_raise_alert ''Door opened while alarm is ON!''),
         Stmt (ESP_DIAG_EVENT ''SECURITY_ALERT'' ''Intrusion detected''),
         Stmt (\<lambda>s. (s\<lparr>notification_sent := True\<rparr>, []))]
        []]"

definition door_closed_prog :: "instr list" where
  "door_closed_prog =
     [Stmt (discard (gpio_set_level BUZZER_GPIO 0)),
      Stmt (\<lambda>s. discard (gpio_set_level LED_GPIO (level_of (led_state s))) s)]"

definition alarm_off_prog :: "instr list" where
  "alarm_off_prog =
     [Stmt (update_if_set door_status_param (StrVal ''CLOSED'')),
      Stmt (update_if_set alarm_trigger_param (BoolVal False)),
      Stmt (discard (gpio_set_level BUZZER_GPIO 0)),
      Stmt (\<lambda>s. discard (gpio_set_level LED_GPIO (level_of (led_state s))) s)]"

definition alarm_behavior_prog :: "int \<Rightarrow> instr list" where
  "alarm_behavior_prog sensor_value =
     [Branch alarm_enabled
        [Branch (\<lambda>s. sensor_value = 1)
           alarm_triggered_prog
           (door_closed_prog @ [Stmt (vTaskDelay 200)])]
        (alarm_off_prog @ [Stmt (vTaskDelay 200)])]"

definition ir_sensor_prog :: "int \<Rightarrow> instr list" where
  "ir_sensor_prog sensor_value =
     door_state_handling_prog sensor_value @ alarm_behavior_prog sensor_value"

text \<open>
  \<open>write_cb\<close>, statement by statement, with \<open>app_driver_set_gpio\<close> in line: its test of the
  parameter name decides between \<open>ESP_OK\<close> (the echo follows) and \<open>ESP_FAIL\<close> (the warning
  follows).
\<close>

definition write_cb_prog :: "string \<Rightarrow> string \<Rightarrow> bool \<Rightarrow> instr list" where
  "write_cb_prog dev_name param_name val =
     [Branch (\<lambda>s. dev_name = ''Home Light'' \<and> param_name = ''Power'')
        [Branch (\<lambda>s. param_name = ''Power'')
           [Stmt (discard (gpio_set_level LED_GPIO (if val then 1 else 0))),
            Stmt (\<lambda>s. (s\<lparr>led_state := val\<rparr>, [])),
            Stmt (ESP_DIAG_EVENT ''LIGHT_ACTION''
                    (''Light Power -> '' @ (if val then ''ON'' else ''OFF''))),
            Stmt (esp_rmaker_param_update (dev_name, param_name) (BoolVal val))]
           [Stmt (ESP_LOGW ''Failed to apply power for Home Light'')]]
        [Branch (\<lambda>s. dev_name = ''Alarm System'' \<and> param_name = ''Power'')
           [Stmt (\<lambda>s. (s\<lparr>alarm_enabled := val\<rparr>, [])),
            Stmt (\<lambda>s. ESP_DIAG_EVENT ''ALARM_ACTION''
                    (''Alarm System set to: '' @ (if alarm_enabled s then ''ON'' else ''OFF'')) s),
            Branch (\<lambda>s. \<not> alarm_enabled s)
              [Stmt (update_if_set door_status_param (StrVal ''CLOSED'')),
               Stmt (update_if_set alarm_trigger_param (BoolVal False)),
               Stmt (discard (gpio_set_level BUZZER_GPIO 0)),
               Stmt (\<lambda>s. discard (gpio_set_level LED_GPIO (if led_state s then 1 else 0)) s)]
              [],
            Stmt (esp_rmaker_param_update (dev_name, param_name) (BoolVal val))]
           []]]"

text \<open>One statement of a thread: the rest of its list, the new state, the calls made.\<close>

fun task_step :: "instr list \<Rightarrow> sys \<Rightarrow> instr list \<times> sys \<times> event list" where
  "task_step [] s = ([], s, [])"
| "task_step (Stmt f # k) s = (k, fst (f s), snd (f s))"
| "task_step (Branch c a b # k) s = ((if c s then a else b) @ k, s, [])"

fun task_steps :: "nat \<Rightarrow> instr list \<Rightarrow> sys \<Rightarrow> instr list \<times> sys \<times> event list" where
  "task_steps 0 k s = (k, s, [])"
| "task_steps (Suc n) k s =
     (let (k1, s1, e1) = task_step k s; (k2, s2, e2) = task_steps n k1 s1
      in (k2, s2, e1 @ e2))"

text \<open>
  The machine: the statements the task still has to run in its current iteration, those the
  router still has to run in its current call, and the state. A move starts an iteration
  with a sensor reading (when the task has finished the last one), lets the task run one
  statement, starts a router call (when the router is idle), or lets the router run one
  statement. Any list of moves is an execution.
\<close>

datatype move = Begin int | TaskStep | Call string string bool | RouterStep

type_synonym config = "instr list \<times> instr list \<times> sys"

fun move_step :: "move \<Rightarrow> config \<Rightarrow> config \<times> event list" where
  "move_step (Begin sensor_value) (t, r, s) =
     ((case t of [] \<Rightarrow> ir_sensor_prog sensor_value | _ \<Rightarrow> t, r, s), [])"
| "move_step TaskStep (t, r, s) =
     (let (t1, s1, e1) = task_step t s in ((t1, r, s1), e1))"
| "move_step (Call dev_name param_name val) (t, r, s) =
     ((t, case r of [] \<Rightarrow> write_cb_prog dev_name param_name val | _ \<Rightarrow> r, s), [])"
| "move_step RouterStep (t, r, s) =
     (let (r1, s1, e1) = task_step r s in ((t, r1, s1), e1))"

fun interleaved :: "move list \<Rightarrow> config \<Rightarrow> config \<times> event list" where
  "interleaved [] c = (c, [])"
| "interleaved (m # ms) c =
     (let (c1, e1) = move_step m c; (c2, e2) = interleaved ms c1 in (c2, e1 @ e2))"

definition state_of :: "config \<Rightarrow> sys" where
  "state_of c = snd (snd c)"

definition start :: "bool \<Rightarrow> bool \<Rightarrow> (gpio_num \<Rightarrow> esp_err) \<Rightarrow> config" where
  "start door_ok trig_ok rc = ([], [], boot door_ok trig_ok rc)"

text \<open>
  Two schedules from boot. In the first the alarm is armed and one iteration reads the door
  open, nothing overlapping. In the second the same iteration is interrupted right after
  its test of \<open>alarm_enabled\<close> by a complete disarming call, and then runs to its end.
\<close>

definition arm_and_open :: "move list" where
  "arm_and_open =
     [Call ''Alarm System'' ''Power'' True,
      RouterStep, RouterStep, RouterStep, RouterStep, RouterStep, RouterStep,
      Begin 1,
      TaskStep, TaskStep, TaskStep, TaskStep, TaskStep, TaskStep, TaskStep, TaskStep, TaskStep,
      TaskStep, TaskStep, TaskStep, TaskStep, TaskStep, TaskStep, TaskStep, TaskStep, TaskStep]"

definition preempting_disarm :: "move list" where
  "preempting_disarm =
     [Call ''Alarm System'' ''Power'' True,
      RouterStep, RouterStep, RouterStep, RouterStep, RouterStep, RouterStep,
      Begin 1,
      TaskStep, TaskStep, TaskStep, TaskStep, TaskStep, TaskStep, TaskStep,
      Call ''Alarm System'' ''Power'' False,
      RouterStep, RouterStep, RouterStep, RouterStep, RouterStep,
      RouterStep, RouterStep, RouterStep, RouterStep, RouterStep,
      TaskStep, TaskStep, TaskStep, TaskStep, TaskStep, TaskStep,
      TaskStep, TaskStep, TaskStep, TaskStep, TaskStep]"

section \<open>Assertions for statement-level executions\<close>

text \<open>
  What holds at every point of every execution: the alert parameter reads true, and the
  latch is set, only while the stored door state is 1.
\<close>

definition latch_inv :: "sys \<Rightarrow> bool" where
  "latch_inv s =
     ((sink s alarm_triggered = Some (BoolVal True) \<longrightarrow>
         previous_sensor_state s = 1 \<and> alarm_trigger_param s = Some alarm_triggered)
      \<and> (notification_sent s \<longrightarrow> previous_sensor_state s = 1))"

text \<open>
  What every statement of the router guarantees to the task: it leaves the task's locals
  and the alert handle alone and never makes the alert parameter true.
\<close>

definition rely :: "sys \<Rightarrow> sys \<Rightarrow> bool" where
  "rely s s' =
     (previous_sensor_state s' = previous_sensor_state s
      \<and> notification_sent s' = notification_sent s
      \<and> alarm_trigger_param s' = alarm_trigger_param s
      \<and> (sink s' alarm_triggered = Some (BoolVal True) \<longrightarrow>
            sink s alarm_triggered = Some (BoolVal True)))"

definition stable :: "(sys \<Rightarrow> bool) \<Rightarrow> bool" where
  "stable P = (\<forall>s s'. P s \<longrightarrow> rely s s' \<longrightarrow> P s')"

text \<open>
  \<open>holds_list k Q s\<close>: from state \<open>s\<close>, however the router's statements fall between those
  of \<open>k\<close>, \<open>latch_inv\<close> holds before every statement of \<open>k\<close> and \<open>Q\<close> after the last.
  \<open>obeys_list\<close>: every statement of a router program that can be reached keeps \<open>rely\<close>.
\<close>

fun holds_instr :: "instr \<Rightarrow> (sys \<Rightarrow> bool) \<Rightarrow> sys \<Rightarrow> bool"
  and holds_list :: "instr list \<Rightarrow> (sys \<Rightarrow> bool) \<Rightarrow> sys \<Rightarrow> bool" where
  "holds_instr (Stmt f) Q = (\<lambda>s. latch_inv s \<and> (\<forall>s'. rely s s' \<longrightarrow> Q (fst (f s'))))"
| "holds_instr (Branch c a b) Q =
     (\<lambda>s. latch_inv s \<and>
        (\<forall>s'. rely s s' \<longrightarrow> (if c s' then holds_list a Q s' else holds_list b Q s')))"
| "holds_list [] Q = Q"
| "holds_list (i # k) Q = holds_instr i (holds_list k Q)"

fun obeys_instr :: "instr \<Rightarrow> bool" and obeys_list :: "instr list \<Rightarrow> bool" where
  "obeys_instr (Stmt f) = (\<forall>s. rely s (fst (f s)))"
| "obeys_instr (Branch c a b) =
     (((\<exists>s. c s) \<longrightarrow> obeys_list a) \<and> ((\<exists>s. \<not> c s) \<longrightarrow> obeys_list b))"
| "obeys_list [] = True"
| "obeys_list (i # k) = (obeys_instr i \<and> obeys_list k)"

definition config_ok :: "config \<Rightarrow> bool" where
  "config_ok c = (holds_list (fst c) latch_inv (state_of c) \<and> obeys_list (fst (snd c)))"

text \<open>Assertions inside the edge handling.\<close>

definition door_is :: "int \<Rightarrow> sys \<Rightarrow> bool" where
  "door_is v s = (latch_inv s \<and> previous_sensor_state s = v)"

definition alert_clear :: "sys \<Rightarrow> bool" where
  "alert_clear s = (latch_inv s \<and> sink s alarm_triggered \<noteq> Some (BoolVal True))"

definition all_clear :: "sys \<Rightarrow> bool" where
  "all_clear s = (alert_clear s \<and> \<not> notification_sent s)"

section \<open>Derived descriptions of the state changes\<close>

text \<open>
  What a guarded update through a handle does to the sink and which event it leaves, and
  the level of a line after a write that the line may reject.
\<close>

definition push_val ::
  "param option \<Rightarrow> param_val \<Rightarrow> (param \<Rightarrow> param_val option) \<Rightarrow> (param \<Rightarrow> param_val option)" where
  "push_val h v m = (case h of None \<Rightarrow> m | Some p \<Rightarrow> m(p \<mapsto> v))"

definition push_ev :: "param option \<Rightarrow> param_val \<Rightarrow> event list" where
  "push_ev h v = (case h of None \<Rightarrow> [] | Some p \<Rightarrow> [ParamUpdate p v])"

definition line_after :: "sys \<Rightarrow> gpio_num \<Rightarrow> nat \<Rightarrow> nat \<Rightarrow> nat" where
  "line_after s pin level old = (if gpio_set_level_rc s pin = ESP_OK then level else old)"

text \<open>
  The invariant of the alert parameter: it reads true only while the alarm is armed and the
  last sensor value seen is 1 (and then it was written through the task's handle); the
  notification latch is set only while the last sensor value seen is 1.
\<close>

definition alert_inv :: "sys \<Rightarrow> bool" where
  "alert_inv s =
     ((sink s alarm_triggered = Some (BoolVal True) \<longrightarrow>
         alarm_enabled s \<and> previous_sensor_state s = 1
         \<and> alarm_trigger_param s = Some alarm_triggered)
      \<and> (notification_sent s \<longrightarrow> previous_sensor_state s = 1))"

section \<open>Basic lemmas\<close>

lemmas sdk_defs = emit_def if_then_else_def if_then_def discard_def level_of_def
  gpio_set_level_def esp_rmaker_param_update_def update_if_set_def vTaskDelay_def
  esp_rmaker_raise_alert_def ESP_DIAG_EVENT_def ESP_LOGW_def

lemmas param_defs = light_power_def alarm_power_def door_status_def alarm_triggered_def

lemma block_Cons:
  "block (f # fs) s = (fst (block fs (fst (f s))), snd (f s) @ snd (block fs (fst (f s))))"
  by (simp add: case_prod_beta)

lemma alarm_triggered_branch_state:
  "fst (alarm_triggered_branch s) =
     s\<lparr>notification_sent := True,
       led_level := line_after s LED_GPIO (level_of (led_state s))
                      (line_after s LED_GPIO (level_of (\<not> led_state s)) (led_level s)),
       buzzer_level := line_after s BUZZER_GPIO 1 (buzzer_level s),
       sink := push_val (alarm_trigger_param s) (BoolVal True) (sink s)\<rparr>"
  by (simp add: alarm_triggered_branch_def block_Cons sdk_defs push_val_def line_after_def
        split: option.splits del: block.simps(2))

lemma alarm_triggered_branch_events:
  "snd (alarm_triggered_branch s) =
     push_ev (alarm_trigger_param s) (BoolVal True)
     @ [GpioSet BUZZER_GPIO 1,
        GpioSet LED_GPIO (level_of (\<not> led_state s)),
        Delay 150,
        GpioSet LED_GPIO (level_of (led_state s)),
        Delay 150]
     @ (if notification_sent s then []
        else [RaiseAlert ''Door opened while alarm is ON!'',
              DiagEvent ''SECURITY_ALERT'' ''Intrusion detected''])"
  by (simp add: alarm_triggered_branch_def block_Cons sdk_defs push_ev_def
        split: option.splits del: block.simps(2))

lemma alarm_off_reset_state:
  "fst (alarm_off_reset s) =
     s\<lparr>led_level := line_after s LED_GPIO (level_of (led_state s)) (led_level s),
       buzzer_level := line_after s BUZZER_GPIO 0 (buzzer_level s),
       sink := push_val (alarm_trigger_param s) (BoolVal False)
                 (push_val (door_status_param s) (StrVal ''CLOSED'') (sink s))\<rparr>"
  by (simp add: alarm_off_reset_def block_Cons sdk_defs push_val_def line_after_def
        split: option.splits del: block.simps(2))

lemma alarm_off_reset_events:
  "snd (alarm_off_reset s) =
     push_ev (door_status_param s) (StrVal ''CLOSED'')
     @ push_ev (alarm_trigger_param s) (BoolVal False)
     @ [GpioSet BUZZER_GPIO 0, GpioSet LED_GPIO (level_of (led_state s))]"
  by (simp add: alarm_off_reset_def block_Cons sdk_defs push_ev_def
        split: option.splits del: block.simps(2))

lemma door_closed_branch_state:
  "fst (door_closed_branch s) =
     s\<lparr>led_level := line_after s LED_GPIO (level_of (led_state s)) (led_level s),
       buzzer_level := line_after s BUZZER_GPIO 0 (buzzer_level s)\<rparr>"
  by (simp add: door_closed_branch_def block_Cons sdk_defs line_after_def
        del: block.simps(2))

lemma door_closed_branch_events:
  "snd (door_closed_branch s) =
     [GpioSet BUZZER_GPIO 0, GpioSet LED_GPIO (level_of (led_state s))]"
  by (simp add: door_closed_branch_def block_Cons sdk_defs del: block.simps(2))

lemma door_state_handling_state:
  "fst (door_state_handling v s) =
     (if v = previous_sensor_state s then s
      else s\<lparr>previous_sensor_state := v, notification_sent := False,
             sink := (if v = 1 then push_val (door_status_param s) (StrVal ''OPENED'') (sink s)
                      else push_val (alarm_trigger_param s) (BoolVal False)
                             (push_val (door_status_param s) (StrVal ''CLOSED'') (sink s)))\<rparr>)"
  by (simp add: door_state_handling_def block_Cons sdk_defs push_val_def
        split: option.splits del: block.simps(2))

lemma door_state_handling_events:
  "snd (door_state_handling v s) =
     (if v = previous_sensor_state s then []
      else if v = 1 then
        DiagEvent ''DOOR_ACTION'' ''Door Sensor: OPENED''
          # push_ev (door_status_param s) (StrVal ''OPENED'')
      else
        DiagEvent ''DOOR_ACTION'' ''Door Sensor: CLOSED''
          # push_ev (door_status_param s) (StrVal ''CLOSED'')
          @ push_ev (alarm_trigger_param s) (BoolVal False))"
  by (simp add: door_state_handling_def block_Cons sdk_defs push_ev_def
        split: option.splits del: block.simps(2))

lemma app_driver_set_gpio_power:
  "app_driver_set_gpio ''Power'' val s =
     (ESP_OK,
      s\<lparr>led_state := val, led_level := line_after s LED_GPIO (level_of val) (led_level s)\<rparr>,
      [GpioSet LED_GPIO (level_of val),
       DiagEvent ''LIGHT_ACTION'' (''Light Power -> '' @ (if val then ''ON'' else ''OFF''))])"
  by (simp add: app_driver_set_gpio_def block_Cons sdk_defs line_after_def del: block.simps(2))

lemma write_cb_light:
  "write_cb ''Home Light'' ''Power'' val s =
     (ESP_OK,
      s\<lparr>led_state := val, led_level := line_after s LED_GPIO (level_of val) (led_level s),
        sink := (sink s)(light_power \<mapsto> BoolVal val)\<rparr>,
      [GpioSet LED_GPIO (level_of val),
       DiagEvent ''LIGHT_ACTION'' (''Light Power -> '' @ (if val then ''ON'' else ''OFF'')),
       ParamUpdate light_power (BoolVal val)])"
  by (simp add: write_cb_def app_driver_set_gpio_power esp_rmaker_param_update_def light_power_def)

lemma write_cb_alarm_on:
  "write_cb ''Alarm System'' ''Power'' True s =
     (ESP_OK,
      s\<lparr>alarm_enabled := True, sink := (sink s)(alarm_power \<mapsto> BoolVal True)\<rparr>,
      [DiagEvent ''ALARM_ACTION'' ''Alarm System set to: ON'',
       ParamUpdate alarm_power (BoolVal True)])"
  by (simp add: write_cb_def block_Cons sdk_defs alarm_power_def del: block.simps(2))

lemma write_cb_alarm_off:
  "write_cb ''Alarm System'' ''Power'' False s =
     (ESP_OK,
      s\<lparr>alarm_enabled := False,
        led_level := line_after s LED_GPIO (level_of (led_state s)) (led_level s),
        buzzer_level := line_after s BUZZER_GPIO 0 (buzzer_level s),
        sink := (push_val (alarm_trigger_param s) (BoolVal False)
                   (push_val (door_status_param s) (StrVal ''CLOSED'') (sink s)))
                (alarm_power \<mapsto> BoolVal False)\<rparr>,
      DiagEvent ''ALARM_ACTION'' ''Alarm System set to: OFF''
        # push_ev (door_status_param s) (StrVal ''CLOSED'')
        @ push_ev (alarm_trigger_param s) (BoolVal False)
        @ [GpioSet BUZZER_GPIO 0, GpioSet LED_GPIO (level_of (led_state s)),
           ParamUpdate alarm_power (BoolVal False)])"
  by (simp add: write_cb_def block_Cons sdk_defs alarm_power_def push_val_def push_ev_def
        line_after_def split: option.splits del: block.simps(2))

lemma alarm_behavior_state:
  "fst (alarm_behavior v s) =
     (if alarm_enabled s then
        (if v = 1 then fst (alarm_triggered_branch s) else fst (door_closed_branch s))
      else fst (alarm_off_reset s))"
  by (simp add: alarm_behavior_def block_Cons if_then_else_def vTaskDelay_def emit_def
        del: block.simps(2))

lemma alarm_behavior_events:
  "snd (alarm_behavior v s) =
     (if alarm_enabled s then
        (if v = 1 then snd (alarm_triggered_branch s)
         else snd (door_closed_branch s) @ [Delay 200])
      else snd (alarm_off_reset s) @ [Delay 200])"
  by (simp add: alarm_behavior_def block_Cons if_then_else_def vTaskDelay_def emit_def
        del: block.simps(2))

lemma ir_sensor_tick_state:
  "fst (ir_sensor_tick v s) = fst (alarm_behavior v (fst (door_state_handling v s)))"
  by (simp add: ir_sensor_tick_def block_Cons del: block.simps(2))

lemma ir_sensor_tick_events:
  "snd (ir_sensor_tick v s) =
     snd (door_state_handling v s) @ snd (alarm_behavior v (fst (door_state_handling v s)))"
  by (simp add: ir_sensor_tick_def block_Cons del: block.simps(2))

lemma door_state_handling_frame:
  "alarm_enabled (fst (door_state_handling v s)) = alarm_enabled s"
  "led_state (fst (door_state_handling v s)) = led_state s"
  "door_status_param (fst (door_state_handling v s)) = door_status_param s"
  "alarm_trigger_param (fst (door_state_handling v s)) = alarm_trigger_param s"
  "gpio_set_level_rc (fst (door_state_handling v s)) = gpio_set_level_rc s"
  "led_level (fst (door_state_handling v s)) = led_level s"
  "buzzer_level (fst (door_state_handling v s)) = buzzer_level s"
  "previous_sensor_state (fst (door_state_handling v s)) = v"
  "notification_sent (fst (door_state_handling v s)) =
     (notification_sent s \<and> v = previous_sensor_state s)"
  by (simp_all add: door_state_handling_state)

lemma run_Cons:
  "run (a # as) s = (fst (run as (fst (step a s))), snd (step a s) @ snd (run as (fst (step a s))))"
  by (simp add: case_prod_beta)

declare run.simps(2) [simp del]

lemma alarm_behavior_frame:
  "alarm_enabled (fst (alarm_behavior v s)) = alarm_enabled s"
  "led_state (fst (alarm_behavior v s)) = led_state s"
  "door_status_param (fst (alarm_behavior v s)) = door_status_param s"
  "alarm_trigger_param (fst (alarm_behavior v s)) = alarm_trigger_param s"
  "gpio_set_level_rc (fst (alarm_behavior v s)) = gpio_set_level_rc s"
  "previous_sensor_state (fst (alarm_behavior v s)) = previous_sensor_state s"
  by (simp_all add: alarm_behavior_state alarm_triggered_branch_state door_closed_branch_state
        alarm_off_reset_state)

lemmas eval_simps = run_Cons write_cb_light write_cb_alarm_on write_cb_alarm_off
  ir_sensor_tick_state ir_sensor_tick_events alarm_behavior_state alarm_behavior_events
  alarm_triggered_branch_state alarm_triggered_branch_events
  door_closed_branch_state door_closed_branch_events
  alarm_off_reset_state alarm_off_reset_events
  door_state_handling_state door_state_handling_events
  push_val_def push_ev_def line_after_def level_of_def boot_def lines_ok_def led_stuck_def
  light_power_def alarm_power_def door_status_def alarm_triggered_def

lemma alarm_ringing_eq:
  "alarm_ringing =
     \<lparr> alarm_enabled = True,
       led_state = False,
       door_status_param = Some door_status,
       alarm_trigger_param = Some alarm_triggered,
       previous_sensor_state = 1,
       notification_sent = True,
       led_level = 0,
       buzzer_level = 1,
       gpio_set_level_rc = lines_ok,
       sink = [light_power \<mapsto> BoolVal False, alarm_power \<mapsto> BoolVal True,
               door_status \<mapsto> StrVal ''OPENED'', alarm_triggered \<mapsto> BoolVal True] \<rparr>"
  by (simp add: alarm_ringing_def eval_simps fun_eq_iff)

lemma tick_disarmed_state:
  assumes "\<not> alarm_enabled s"
  shows "fst (ir_sensor_tick v s) = fst (alarm_off_reset (fst (door_state_handling v s)))"
  using assms by (simp add: ir_sensor_tick_state alarm_behavior_state door_state_handling_frame)

lemma alarm_off_reset_idem:
  "fst (alarm_off_reset (fst (alarm_off_reset s))) = fst (alarm_off_reset s)"
  by (cases "door_status_param s"; cases "alarm_trigger_param s")
     (simp_all add: alarm_off_reset_state push_val_def line_after_def fun_eq_iff)

lemma alarm_off_reset_frame:
  "previous_sensor_state (fst (alarm_off_reset s)) = previous_sensor_state s"
  "notification_sent (fst (alarm_off_reset s)) = notification_sent s"
  "alarm_enabled (fst (alarm_off_reset s)) = alarm_enabled s"
  "led_state (fst (alarm_off_reset s)) = led_state s"
  "door_status_param (fst (alarm_off_reset s)) = door_status_param s"
  "alarm_trigger_param (fst (alarm_off_reset s)) = alarm_trigger_param s"
  by (simp_all add: alarm_off_reset_state)

lemma door_state_handling_same:
  "previous_sensor_state s = v \<Longrightarrow> door_state_handling v s = (s, [])"
  by (simp add: prod_eq_iff door_state_handling_state door_state_handling_events)

section \<open>Lemmas on executions\<close>

lemma write_cb_cases:
  "write_cb dev_name param_name val s =
     (if dev_name = ''Home Light'' \<and> param_name = ''Power''
      then write_cb ''Home Light'' ''Power'' val s
      else if dev_name = ''Alarm System'' \<and> param_name = ''Power''
      then write_cb ''Alarm System'' ''Power'' val s
      else (ESP_OK, s, []))"
  by (auto simp: write_cb_def)

lemma write_cb_task_locals:
  "previous_sensor_state (fst (snd (write_cb dev_name param_name val s))) = previous_sensor_state s"
  "notification_sent (fst (snd (write_cb dev_name param_name val s))) = notification_sent s"
  by (cases val; simp add: write_cb_cases [of dev_name param_name] write_cb_light
        write_cb_alarm_on write_cb_alarm_off)+

lemma write_cb_no_alert:
  "filter is_alert (snd (snd (write_cb dev_name param_name val s))) = []"
  by (cases val; simp add: write_cb_cases [of dev_name param_name] write_cb_light
        write_cb_alarm_on write_cb_alarm_off is_alert_def push_ev_def split: option.splits)

lemma write_cb_no_opened_push:
  "filter is_opened_push (snd (snd (write_cb dev_name param_name val s))) = []"
  by (cases val; simp add: write_cb_cases [of dev_name param_name] write_cb_light
        write_cb_alarm_on write_cb_alarm_off is_opened_push_def push_ev_def split: option.splits)

lemma write_cb_alert_inv:
  assumes "alert_inv s"
  shows "alert_inv (fst (snd (write_cb dev_name param_name val s)))"
  using assms
  by (cases val; cases "alarm_trigger_param s"; cases "door_status_param s")
     (auto simp: write_cb_cases [of dev_name param_name] write_cb_light
        write_cb_alarm_on write_cb_alarm_off alert_inv_def push_val_def param_defs)


lemma tick_state_cases:
  "fst (ir_sensor_tick v s) =
     (if alarm_enabled s then
        (if v = 1 then fst (alarm_triggered_branch (fst (door_state_handling v s)))
         else fst (door_closed_branch (fst (door_state_handling v s))))
      else fst (alarm_off_reset (fst (door_state_handling v s))))"
  by (simp add: ir_sensor_tick_state alarm_behavior_state door_state_handling_frame)

lemma tick_task_locals:
  "previous_sensor_state (fst (ir_sensor_tick v s)) = v"
  "notification_sent (fst (ir_sensor_tick v s)) =
     (if alarm_enabled s \<and> v = 1 then True
      else notification_sent s \<and> v = previous_sensor_state s)"
  by (simp_all add: tick_state_cases alarm_triggered_branch_state door_closed_branch_state
        alarm_off_reset_state door_state_handling_frame)

lemma tick_alarm_enabled:
  "alarm_enabled (fst (ir_sensor_tick v s)) = alarm_enabled s"
  "alarm_trigger_param (fst (ir_sensor_tick v s)) = alarm_trigger_param s"
  by (simp_all add: ir_sensor_tick_state alarm_behavior_frame door_state_handling_frame)

lemma tick_alert_sink:
  assumes "sink (fst (ir_sensor_tick v s)) alarm_triggered = Some (BoolVal True)"
    and "sink s alarm_triggered = Some (BoolVal True) \<longrightarrow>
           alarm_trigger_param s = Some alarm_triggered"
  shows "(alarm_enabled s \<and> v = 1 \<and> alarm_trigger_param s = Some alarm_triggered)
         \<or> (alarm_enabled s \<and> v = previous_sensor_state s
             \<and> sink s alarm_triggered = Some (BoolVal True))"
  using assms
  by (cases "alarm_trigger_param s"; cases "door_status_param s")
     (auto simp: tick_state_cases alarm_triggered_branch_state door_closed_branch_state
        alarm_off_reset_state door_state_handling_state push_val_def param_defs
        split: if_splits)

lemma tick_alert_inv:
  assumes "alert_inv s"
  shows "alert_inv (fst (ir_sensor_tick v s))"
proof -
  have "sink (fst (ir_sensor_tick v s)) alarm_triggered = Some (BoolVal True) \<Longrightarrow>
        alarm_enabled s \<and> v = 1 \<and> alarm_trigger_param s = Some alarm_triggered"
    using tick_alert_sink [of v s] assms by (auto simp: alert_inv_def)
  moreover have "notification_sent (fst (ir_sensor_tick v s)) \<Longrightarrow> v = 1"
    using assms by (auto simp: tick_task_locals alert_inv_def split: if_splits)
  ultimately show ?thesis
    by (auto simp: alert_inv_def tick_task_locals(1) tick_alarm_enabled)
qed

lemma step_alert_inv: "alert_inv s \<Longrightarrow> alert_inv (fst (step a s))"
  by (cases a) (simp_all add: tick_alert_inv write_cb_alert_inv)

lemma run_alert_inv: "alert_inv s \<Longrightarrow> alert_inv (fst (run acts s))"
  by (induction acts arbitrary: s) (simp_all add: run_Cons step_alert_inv)

lemma boot_alert_inv: "alert_inv (boot door_ok trig_ok rc)"
  by (simp add: alert_inv_def boot_def param_defs)

lemma tick_alerts:
  "filter is_alert (snd (ir_sensor_tick v s)) =
     (if alarm_enabled s \<and> v = 1 \<and> \<not> (notification_sent s \<and> previous_sensor_state s = 1)
      then [RaiseAlert ''Door opened while alarm is ON!''] else [])"
  by (simp add: ir_sensor_tick_events alarm_behavior_events alarm_triggered_branch_events
        door_closed_branch_events alarm_off_reset_events door_state_handling_events
        door_state_handling_frame push_ev_def is_alert_def split: option.splits)

lemma tick_opened_pushes:
  "previous_sensor_state s = 1 \<Longrightarrow> filter is_opened_push (snd (ir_sensor_tick 1 s)) = []"
  by (simp add: ir_sensor_tick_events alarm_behavior_events alarm_triggered_branch_events
        door_closed_branch_events alarm_off_reset_events door_state_handling_events
        door_state_handling_frame push_ev_def is_opened_push_def split: option.splits)


lemma step_stays_open:
  assumes "reads_open a" and "previous_sensor_state s = 1"
  shows "previous_sensor_state (fst (step a s)) = 1"
    and "filter is_opened_push (snd (step a s)) = []"
    and "notification_sent s \<Longrightarrow> notification_sent (fst (step a s))"
    and "notification_sent s \<Longrightarrow> filter is_alert (snd (step a s)) = []"
  using assms
  by (cases a; simp add: tick_task_locals tick_alerts tick_opened_pushes write_cb_task_locals
        write_cb_no_alert write_cb_no_opened_push)+

lemma run_stays_open:
  assumes "open_episode acts" and "previous_sensor_state s = 1"
  shows "filter is_opened_push (snd (run acts s)) = []"
  using assms
  by (induction acts arbitrary: s) (simp_all add: run_Cons open_episode_def step_stays_open)

lemma run_latched:
  assumes "open_episode acts" and "previous_sensor_state s = 1" and "notification_sent s"
  shows "filter is_alert (snd (run acts s)) = []"
  using assms
  by (induction acts arbitrary: s) (simp_all add: run_Cons open_episode_def step_stays_open)

lemma step_alert_latches:
  assumes "filter is_alert (snd (step a s)) \<noteq> []"
  shows "filter is_alert (snd (step a s)) = [RaiseAlert ''Door opened while alarm is ON!'']"
    and "previous_sensor_state (fst (step a s)) = 1"
    and "notification_sent (fst (step a s))"
  using assms
  by (cases a; simp add: tick_task_locals tick_alerts write_cb_no_alert split: if_splits)+

lemma run_alerts_le:
  assumes "open_episode acts"
  shows "length (filter is_alert (snd (run acts s))) \<le> 1"
  using assms
proof (induction acts arbitrary: s)
  case Nil
  then show ?case by simp
next
  case (Cons a as)
  then have ep: "open_episode as"
    by (simp add: open_episode_def)
  show ?case
  proof (cases "filter is_alert (snd (step a s)) = []")
    case True
    then show ?thesis
      using Cons.IH [OF ep, of "fst (step a s)"] by (simp add: run_Cons)
  next
    case False
    from step_alert_latches [OF False]
    have "filter is_alert (snd (run as (fst (step a s)))) = []"
      and "length (filter is_alert (snd (step a s))) = 1"
      by (simp_all add: run_latched [OF ep])
    then show ?thesis by (simp add: run_Cons)
  qed
qed

section \<open>Statement-level lemmas\<close>

lemma exec_list_Cons:
  "exec_list (i # k) s =
     (fst (exec_list k (fst (exec_instr i s))),
      snd (exec_instr i s) @ snd (exec_list k (fst (exec_instr i s))))"
  by (simp add: case_prod_beta)

lemma exec_list_append:
  "exec_list (a @ b) s =
     (fst (exec_list b (fst (exec_list a s))),
      snd (exec_list a s) @ snd (exec_list b (fst (exec_list a s))))"
  by (induction a arbitrary: s) (simp_all add: exec_list_Cons del: exec_list.simps(2))

lemma exec_list_is_block: "exec_list (map Stmt fs) s = block fs s"
  by (induction fs arbitrary: s) (simp_all add: case_prod_beta)

lemmas prog_defs = door_state_handling_prog_def alarm_triggered_prog_def door_closed_prog_def
  alarm_off_prog_def alarm_behavior_prog_def ir_sensor_prog_def write_cb_prog_def

lemma door_state_handling_prog_exec:
  "exec_list (door_state_handling_prog v) s = door_state_handling v s"
  by (simp add: door_state_handling_prog_def door_state_handling_def exec_list_Cons block_Cons
        if_then_def if_then_else_def del: exec_list.simps(2) block.simps(2))

lemma alarm_triggered_prog_exec:
  "exec_list alarm_triggered_prog s = alarm_triggered_branch s"
  by (simp add: alarm_triggered_prog_def alarm_triggered_branch_def exec_list_Cons block_Cons
        if_then_def if_then_else_def del: exec_list.simps(2) block.simps(2))

lemma door_closed_prog_exec: "exec_list door_closed_prog s = door_closed_branch s"
  by (simp add: door_closed_prog_def door_closed_branch_def exec_list_Cons block_Cons
        del: exec_list.simps(2) block.simps(2))

lemma alarm_off_prog_exec: "exec_list alarm_off_prog s = alarm_off_reset s"
  by (simp add: alarm_off_prog_def alarm_off_reset_def exec_list_Cons block_Cons
        del: exec_list.simps(2) block.simps(2))

lemma alarm_behavior_prog_exec:
  "exec_list (alarm_behavior_prog v) s = alarm_behavior v s"
  by (simp add: alarm_behavior_prog_def alarm_behavior_def exec_list_Cons exec_list_append
        block_Cons if_then_else_def alarm_triggered_prog_exec door_closed_prog_exec
        alarm_off_prog_exec del: exec_list.simps(2) block.simps(2))

lemma ir_sensor_prog_exec: "exec_list (ir_sensor_prog v) s = ir_sensor_tick v s"
  by (simp add: ir_sensor_prog_def ir_sensor_tick_def exec_list_append block_Cons
        door_state_handling_prog_exec alarm_behavior_prog_exec del: block.simps(2))

lemma write_cb_prog_exec:
  "exec_list (write_cb_prog dev_name param_name val) s = snd (write_cb dev_name param_name val s)"
  by (simp add: write_cb_prog_def write_cb_def app_driver_set_gpio_def exec_list_Cons block_Cons
        if_then_def if_then_else_def case_prod_beta
        del: exec_list.simps(2) block.simps(2))

lemma rely_refl: "rely s s"
  by (simp add: rely_def)

lemma rely_trans: "rely s s' \<Longrightarrow> rely s' s'' \<Longrightarrow> rely s s''"
  by (simp add: rely_def)

lemma latch_inv_rely: "latch_inv s \<Longrightarrow> rely s s' \<Longrightarrow> latch_inv s'"
  by (simp add: latch_inv_def rely_def)

lemma holds_list_append: "holds_list (a @ k) Q = holds_list a (holds_list k Q)"
  by (induction a) simp_all

lemma holds_instr_rely:
  "holds_instr i Q s \<Longrightarrow> rely s s' \<Longrightarrow> holds_instr i Q s'"
  by (cases i) (auto intro: latch_inv_rely rely_trans)

lemma holds_list_rely:
  "holds_list k latch_inv s \<Longrightarrow> rely s s' \<Longrightarrow> holds_list k latch_inv s'"
  by (cases k) (auto intro: latch_inv_rely holds_instr_rely)

lemma holds_instr_latch: "holds_instr i Q s \<Longrightarrow> latch_inv s"
  by (cases i) simp_all

lemma holds_list_latch: "holds_list k latch_inv s \<Longrightarrow> latch_inv s"
  by (cases k) (auto dest: holds_instr_latch)

lemma holds_instr_mono:
  "holds_instr i Q s \<Longrightarrow> \<forall>s. Q s \<longrightarrow> Q' s \<Longrightarrow> holds_instr i Q' s"
  and holds_list_mono:
  "holds_list k Q s \<Longrightarrow> \<forall>s. Q s \<longrightarrow> Q' s \<Longrightarrow> holds_list k Q' s"
proof (induction i Q and k Q arbitrary: Q' s and Q' s rule: holds_instr_holds_list.induct)
  case (1 f Q)
  then show ?case by auto
next
  case (2 c a b Q)
  then show ?case by (auto split: if_splits)
next
  case (3 Q)
  then show ?case by simp
next
  case (4 i k Q)
  have "\<forall>s. holds_list k Q s \<longrightarrow> holds_list k Q' s"
    using "4.IH"(1) "4.prems"(2) by blast
  with "4.IH"(2) [of s "holds_list k Q'"] "4.prems"(1) show ?case by simp
qed

lemma obeys_list_append: "obeys_list (a @ b) = (obeys_list a \<and> obeys_list b)"
  by (induction a) simp_all

lemma write_cb_prog_obeys: "obeys_list (write_cb_prog dev_name param_name val)"
  by (auto simp: write_cb_prog_def rely_def sdk_defs param_defs split: option.splits
        gpio_num.splits)

lemma stable_latch_inv: "stable latch_inv"
  by (auto simp: stable_def intro: latch_inv_rely)

lemma stable_door_is: "stable (door_is v)"
  by (auto simp: stable_def door_is_def rely_def intro: latch_inv_rely)

lemma stable_alert_clear: "stable alert_clear"
  by (auto simp: stable_def alert_clear_def rely_def latch_inv_def)

lemma stable_all_clear: "stable all_clear"
  by (auto simp: stable_def all_clear_def alert_clear_def rely_def latch_inv_def)

lemma holds_Stmt:
  assumes "stable P" and "\<forall>s. P s \<longrightarrow> latch_inv s" and "P s"
    and "\<And>s. P s \<Longrightarrow> Q (fst (f s))"
  shows "holds_instr (Stmt f) Q s"
  using assms by (auto simp: stable_def)

lemma holds_Branch:
  assumes "stable P" and "\<forall>s. P s \<longrightarrow> latch_inv s" and "P s"
    and "\<And>s. P s \<Longrightarrow> c s \<Longrightarrow> holds_list a Q s"
    and "\<And>s. P s \<Longrightarrow> \<not> c s \<Longrightarrow> holds_list b Q s"
  shows "holds_instr (Branch c a b) Q s"
  using assms by (auto simp: stable_def)

declare holds_instr.simps [simp del]

lemma holds_Stmts:
  assumes "stable P" and "\<forall>s. P s \<longrightarrow> latch_inv s" and "P s"
    and "\<And>f s. f \<in> set fs \<Longrightarrow> P s \<Longrightarrow> P (fst (f s))"
    and "\<And>s. P s \<Longrightarrow> Q s"
  shows "holds_list (map Stmt fs) Q s"
  using assms(3,4)
proof (induction fs arbitrary: s)
  case Nil
  then show ?case by (simp add: assms(5))
next
  case (Cons f fs)
  have "holds_instr (Stmt f) (holds_list (map Stmt fs) Q) s"
  proof (rule holds_Stmt [where P = P, OF assms(1) assms(2) Cons.prems(1)])
    fix s' assume "P s'"
    then have "P (fst (f s'))" using Cons.prems(2) by simp
    then show "holds_list (map Stmt fs) Q (fst (f s'))"
      using Cons.IH Cons.prems(2) by simp
  qed
  then show ?case by simp
qed

lemma latch_inv_latch: "\<forall>s. latch_inv s \<longrightarrow> latch_inv s"
  by simp

lemma door_is_latch: "\<forall>s. door_is v s \<longrightarrow> latch_inv s"
  by (simp add: door_is_def)

lemma alert_clear_latch: "\<forall>s. alert_clear s \<longrightarrow> latch_inv s"
  by (simp add: alert_clear_def)

lemma all_clear_latch: "\<forall>s. all_clear s \<longrightarrow> latch_inv s"
  by (simp add: all_clear_def alert_clear_def)

lemmas stmt_simps = latch_inv_def sdk_defs

lemma alarm_triggered_prog_holds:
  assumes "door_is 1 s"
  shows "holds_list alarm_triggered_prog latch_inv s"
proof -
  let ?body = "[esp_rmaker_raise_alert ''Door opened while alarm is ON!'',
         ESP_DIAG_EVENT ''SECURITY_ALERT'' ''Intrusion detected'',
         (\<lambda>s. (s\<lparr>notification_sent := True\<rparr>, []))]"
  let ?tail = "Branch (\<lambda>s. \<not> notification_sent s) (map Stmt ?body) []"
  let ?head = "[update_if_set alarm_trigger_param (BoolVal True),
      discard (gpio_set_level BUZZER_GPIO 1),
      (\<lambda>s. discard (gpio_set_level LED_GPIO (if led_state s then 0 else 1)) s),
      vTaskDelay 150,
      (\<lambda>s. discard (gpio_set_level LED_GPIO (level_of (led_state s))) s),
      vTaskDelay 150]"
  have prog: "alarm_triggered_prog = map Stmt ?head @ [?tail]"
    by (simp add: alarm_triggered_prog_def)
  have body: "holds_list (map Stmt ?body) latch_inv s'" if "door_is 1 s'" for s'
  proof (rule holds_Stmts [where P = "door_is 1", OF stable_door_is door_is_latch that])
    show "door_is 1 (fst (f s))" if "f \<in> set ?body" "door_is 1 s" for f s
      using that by (auto simp: door_is_def stmt_simps)
    show "latch_inv s" if "door_is 1 s" for s
      using that by (simp add: door_is_def)
  qed
  have tail: "holds_instr ?tail latch_inv s'" if "door_is 1 s'" for s'
  proof (rule holds_Branch [where P = "door_is 1", OF stable_door_is door_is_latch that])
    show "holds_list (map Stmt ?body) latch_inv s" if "door_is 1 s" for s
      using that by (rule body)
    show "holds_list [] latch_inv s" if "door_is 1 s" for s
      using that by (simp add: door_is_def)
  qed
  have "holds_list (map Stmt ?head) (holds_instr ?tail latch_inv) s"
  proof (rule holds_Stmts [where P = "door_is 1", OF stable_door_is door_is_latch assms])
    show "door_is 1 (fst (f s))" if "f \<in> set ?head" "door_is 1 s" for f s
      using that
      by (auto simp: door_is_def stmt_simps split: option.splits gpio_num.splits if_splits)
    show "holds_instr ?tail latch_inv s" if "door_is 1 s" for s
      using that by (rule tail)
  qed
  then show ?thesis
    by (simp only: prog holds_list_append holds_list.simps)
qed

lemma door_closed_prog_holds:
  assumes "latch_inv s"
  shows "holds_list (door_closed_prog @ [Stmt (vTaskDelay 200)]) latch_inv s"
proof -
  let ?fs = "[discard (gpio_set_level BUZZER_GPIO 0),
      (\<lambda>s. discard (gpio_set_level LED_GPIO (level_of (led_state s))) s),
      vTaskDelay 200]"
  have prog: "door_closed_prog @ [Stmt (vTaskDelay 200)] = map Stmt ?fs"
    by (simp add: door_closed_prog_def)
  have "holds_list (map Stmt ?fs) latch_inv s"
  proof (rule holds_Stmts [where P = latch_inv, OF stable_latch_inv latch_inv_latch assms])
    show "latch_inv (fst (f s))" if "f \<in> set ?fs" "latch_inv s" for f s
      using that by (auto simp: stmt_simps split: gpio_num.splits if_splits)
  qed
  then show ?thesis by (simp only: prog)
qed

lemma alarm_off_prog_holds:
  assumes "latch_inv s"
  shows "holds_list (alarm_off_prog @ [Stmt (vTaskDelay 200)]) latch_inv s"
proof -
  let ?fs = "[update_if_set door_status_param (StrVal ''CLOSED''),
      update_if_set alarm_trigger_param (BoolVal False),
      discard (gpio_set_level BUZZER_GPIO 0),
      (\<lambda>s. discard (gpio_set_level LED_GPIO (level_of (led_state s))) s),
      vTaskDelay 200]"
  have prog: "alarm_off_prog @ [Stmt (vTaskDelay 200)] = map Stmt ?fs"
    by (simp add: alarm_off_prog_def)
  have "holds_list (map Stmt ?fs) latch_inv s"
  proof (rule holds_Stmts [where P = latch_inv, OF stable_latch_inv latch_inv_latch assms])
    show "latch_inv (fst (f s))" if "f \<in> set ?fs" "latch_inv s" for f s
      using that by (auto simp: stmt_simps split: option.splits gpio_num.splits if_splits)
  qed
  then show ?thesis by (simp only: prog)
qed

lemma alarm_behavior_prog_holds:
  assumes "door_is v s"
  shows "holds_list (alarm_behavior_prog v) latch_inv s"
proof -
  let ?inner = "Branch (\<lambda>s. v = 1) alarm_triggered_prog
      (door_closed_prog @ [Stmt (vTaskDelay 200)])"
  have inner: "holds_instr ?inner latch_inv s'" if "door_is v s'" for s'
  proof (rule holds_Branch [where P = "door_is v", OF stable_door_is door_is_latch that])
    show "holds_list alarm_triggered_prog latch_inv s" if "door_is v s" "v = 1" for s
      using that by (auto intro: alarm_triggered_prog_holds)
    show "holds_list (door_closed_prog @ [Stmt (vTaskDelay 200)]) latch_inv s"
      if "door_is v s" for s
      using that by (auto intro: door_closed_prog_holds simp: door_is_def)
  qed
  have "holds_instr (Branch alarm_enabled [?inner]
        (alarm_off_prog @ [Stmt (vTaskDelay 200)])) latch_inv s"
  proof (rule holds_Branch [where P = "door_is v", OF stable_door_is door_is_latch assms])
    show "holds_list [?inner] latch_inv s" if "door_is v s" for s
      using that by (simp add: inner)
    show "holds_list (alarm_off_prog @ [Stmt (vTaskDelay 200)]) latch_inv s"
      if "door_is v s" for s
      using that by (auto intro: alarm_off_prog_holds simp: door_is_def)
  qed
  then show ?thesis
    by (simp only: alarm_behavior_prog_def holds_list.simps)
qed

lemma door_state_handling_prog_holds:
  assumes "latch_inv s"
  shows "holds_list (door_state_handling_prog v) (door_is v) s"
proof -
  let ?setprev = "Stmt (\<lambda>s. (s\<lparr>previous_sensor_state := v\<rparr>, []))"
  let ?opened = "[ESP_DIAG_EVENT ''DOOR_ACTION'' ''Door Sensor: OPENED'',
            update_if_set door_status_param (StrVal ''OPENED''),
            (\<lambda>s. (s\<lparr>notification_sent := False\<rparr>, []))]"
  let ?closed1 = "[ESP_DIAG_EVENT ''DOOR_ACTION'' ''Door Sensor: CLOSED'',
            update_if_set door_status_param (StrVal ''CLOSED'')]"
  let ?push = "Stmt (update_if_set alarm_trigger_param (BoolVal False))"
  let ?clear = "Stmt (\<lambda>s. (s\<lparr>notification_sent := False\<rparr>, []))"
  have setprev_open: "holds_instr ?setprev (door_is v) s'" if "latch_inv s'" "v = 1" for s'
  proof (rule holds_Stmt [where P = latch_inv, OF stable_latch_inv latch_inv_latch that(1)])
    show "door_is v (fst (s\<lparr>previous_sensor_state := v\<rparr>, []))" if "latch_inv s" for s
      using that \<open>v = 1\<close> by (simp add: door_is_def latch_inv_def)
  qed
  have setprev_closed: "holds_instr ?setprev (door_is v) s'" if "all_clear s'" for s'
  proof (rule holds_Stmt [where P = all_clear, OF stable_all_clear all_clear_latch that])
    show "door_is v (fst (s\<lparr>previous_sensor_state := v\<rparr>, []))" if "all_clear s" for s
      using that by (simp add: door_is_def latch_inv_def all_clear_def alert_clear_def)
  qed
  have clear: "holds_instr ?clear (holds_instr ?setprev (door_is v)) s'" if "alert_clear s'" for s'
  proof (rule holds_Stmt [where P = alert_clear, OF stable_alert_clear alert_clear_latch that])
    show "holds_instr ?setprev (door_is v) (fst (s\<lparr>notification_sent := False\<rparr>, []))"
      if "alert_clear s" for s
      using that
      by (intro setprev_closed) (simp add: all_clear_def alert_clear_def latch_inv_def)
  qed
  have push: "holds_instr ?push (holds_instr ?clear (holds_instr ?setprev (door_is v))) s'"
    if "latch_inv s'" for s'
  proof (rule holds_Stmt [where P = latch_inv, OF stable_latch_inv latch_inv_latch that])
    show "holds_instr ?clear (holds_instr ?setprev (door_is v))
        (fst (update_if_set alarm_trigger_param (BoolVal False) s))" if "latch_inv s" for s
      using that
      by (intro clear)
         (auto simp: alert_clear_def stmt_simps split: option.splits if_splits)
  qed
  have opened: "holds_list (map Stmt ?opened) (holds_instr ?setprev (door_is v)) s'"
    if "latch_inv s'" "v = 1" for s'
  proof (rule holds_Stmts [where P = latch_inv, OF stable_latch_inv latch_inv_latch that(1)])
    show "latch_inv (fst (f s))" if "f \<in> set ?opened" "latch_inv s" for f s
      using that by (auto simp: stmt_simps split: option.splits if_splits)
    show "holds_instr ?setprev (door_is v) s" if "latch_inv s" for s
      using that \<open>v = 1\<close> by (rule setprev_open)
  qed
  have closed: "holds_list (map Stmt ?closed1)
       (holds_instr ?push (holds_instr ?clear (holds_instr ?setprev (door_is v)))) s'"
    if "latch_inv s'" for s'
  proof (rule holds_Stmts [where P = latch_inv, OF stable_latch_inv latch_inv_latch that])
    show "latch_inv (fst (f s))" if "f \<in> set ?closed1" "latch_inv s" for f s
      using that by (auto simp: stmt_simps split: option.splits if_splits)
    show "holds_instr ?push (holds_instr ?clear (holds_instr ?setprev (door_is v))) s"
      if "latch_inv s" for s
      using that by (rule push)
  qed
  let ?inner = "Branch (\<lambda>s. v = 1) (map Stmt ?opened) (map Stmt ?closed1 @ [?push, ?clear])"
  have inner: "holds_instr ?inner (holds_instr ?setprev (door_is v)) s'" if "latch_inv s'" for s'
  proof (rule holds_Branch [where P = latch_inv, OF stable_latch_inv latch_inv_latch that])
    show "holds_list (map Stmt ?opened) (holds_instr ?setprev (door_is v)) s"
      if "latch_inv s" "v = 1" for s
      using that by (rule opened)
    show "holds_list (map Stmt ?closed1 @ [?push, ?clear]) (holds_instr ?setprev (door_is v)) s"
      if "latch_inv s" for s
      using closed [OF that] by (simp only: holds_list_append holds_list.simps)
  qed
  have "holds_instr (Branch (\<lambda>s. v \<noteq> previous_sensor_state s) [?inner, ?setprev] [])
          (door_is v) s"
  proof (rule holds_Branch [where P = latch_inv, OF stable_latch_inv latch_inv_latch assms])
    show "holds_list [?inner, ?setprev] (door_is v) s" if "latch_inv s" for s
      using inner [OF that] by (simp only: holds_list.simps)
    show "holds_list [] (door_is v) s" if "latch_inv s" "\<not> v \<noteq> previous_sensor_state s" for s
      using that by (simp add: door_is_def)
  qed
  then show ?thesis
    by (simp add: door_state_handling_prog_def)
qed

lemma ir_sensor_prog_holds:
  assumes "latch_inv s"
  shows "holds_list (ir_sensor_prog v) latch_inv s"
proof -
  have "holds_list (door_state_handling_prog v) (holds_list (alarm_behavior_prog v) latch_inv) s"
    using door_state_handling_prog_holds [OF assms, of v]
    by (rule holds_list_mono) (simp add: alarm_behavior_prog_holds)
  then show ?thesis
    by (simp only: ir_sensor_prog_def holds_list_append)
qed

lemma task_step_holds:
  assumes "holds_list t latch_inv s"
  shows "holds_list (fst (task_step t s)) latch_inv (fst (snd (task_step t s)))"
proof (cases t)
  case Nil
  with assms show ?thesis by simp
next
  case (Cons i k)
  show ?thesis
  proof (cases i)
    case (Stmt f)
    with Cons assms show ?thesis
      by (auto simp: holds_instr.simps rely_refl)
  next
    case (Branch c a b)
    with Cons assms have "if c s then holds_list a (holds_list k latch_inv) s
        else holds_list b (holds_list k latch_inv) s"
      by (auto simp: holds_instr.simps rely_refl)
    with Cons Branch show ?thesis
      by (simp add: holds_list_append)
  qed
qed

lemma router_step_obeys:
  assumes "obeys_list r"
  shows "obeys_list (fst (task_step r s))" and "rely s (fst (snd (task_step r s)))"
proof -
  show "obeys_list (fst (task_step r s))"
  proof (cases r)
    case Nil
    then show ?thesis by simp
  next
    case (Cons i k)
    with assms show ?thesis
      by (cases i) (auto simp: obeys_list_append)
  qed
  show "rely s (fst (snd (task_step r s)))"
  proof (cases r)
    case Nil
    then show ?thesis by (simp add: rely_refl)
  next
    case (Cons i k)
    with assms show ?thesis
      by (cases i) (auto simp: rely_refl)
  qed
qed

lemma move_step_ok:
  assumes "config_ok c"
  shows "config_ok (fst (move_step m c))"
proof -
  obtain t r s where c: "c = (t, r, s)"
    by (cases c) auto
  from assms c have t: "holds_list t latch_inv s" and r: "obeys_list r"
    by (simp_all add: config_ok_def state_of_def)
  show ?thesis
  proof (cases m)
    case (Begin v)
    with c t r show ?thesis
      by (cases t) (simp_all add: config_ok_def state_of_def ir_sensor_prog_holds)
  next
    case TaskStep
    with c r task_step_holds [OF t] show ?thesis
      by (simp add: config_ok_def state_of_def case_prod_beta)
  next
    case (Call dev_name param_name val)
    with c t r show ?thesis
      by (cases r) (simp_all add: config_ok_def state_of_def write_cb_prog_obeys)
  next
    case RouterStep
    with c router_step_obeys [OF r, of s] holds_list_rely [OF t] show ?thesis
      by (simp add: config_ok_def state_of_def case_prod_beta)
  qed
qed

lemma fst_interleaved_Cons:
  "fst (interleaved (m # ms) c) = fst (interleaved ms (fst (move_step m c)))"
  by (simp add: case_prod_beta)

lemma interleaved_ok: "config_ok c \<Longrightarrow> config_ok (fst (interleaved ms c))"
  by (induction ms arbitrary: c)
     (simp_all add: fst_interleaved_Cons move_step_ok del: interleaved.simps(2))

lemma boot_latch_inv: "latch_inv (boot door_ok trig_ok rc)"
  by (simp add: latch_inv_def boot_def param_defs)

lemma start_ok: "config_ok (start door_ok trig_ok rc)"
  by (simp add: config_ok_def start_def state_of_def boot_latch_inv)

lemma interleaved_latch_inv:
  "latch_inv (state_of (fst (interleaved ms (start door_ok trig_ok rc))))"
  using interleaved_ok [OF start_ok, of ms door_ok trig_ok rc]
  by (auto simp: config_ok_def dest: holds_list_latch)

lemma task_steps_add:
  "task_steps (n + m) k s =
     (fst (task_steps m (fst (task_steps n k s)) (fst (snd (task_steps n k s)))),
      fst (snd (task_steps m (fst (task_steps n k s)) (fst (snd (task_steps n k s))))),
      snd (snd (task_steps n k s))
        @ snd (snd (task_steps m (fst (task_steps n k s)) (fst (snd (task_steps n k s))))))"
  by (induction n arbitrary: k s) (simp_all add: case_prod_beta)

lemma task_steps_exec_instr:
  "\<exists>n. task_steps n (i # k') s = (k', fst (exec_instr i s), snd (exec_instr i s))"
  and task_steps_exec_list:
  "\<exists>n. task_steps n (k @ k') s = (k', fst (exec_list k s), snd (exec_list k s))"
proof (induction i s and k s arbitrary: k' and k' rule: exec_instr_exec_list.induct)
  case (1 f s)
  have "task_steps (Suc 0) (Stmt f # k') s = (k', fst (f s), snd (f s))"
    by simp
  then show ?case by (auto simp del: task_steps.simps)
next
  case (2 c a b s)
  show ?case
  proof (cases "c s")
    case True
    from "2.IH"(1) [OF True, of k'] obtain n
      where "task_steps n (a @ k') s = (k', fst (exec_list a s), snd (exec_list a s))" ..
    with True have "task_steps (Suc n) (Branch c a b # k') s =
        (k', fst (exec_instr (Branch c a b) s), snd (exec_instr (Branch c a b) s))"
      by simp
    then show ?thesis ..
  next
    case False
    from "2.IH"(2) [OF False, of k'] obtain n
      where "task_steps n (b @ k') s = (k', fst (exec_list b s), snd (exec_list b s))" ..
    with False have "task_steps (Suc n) (Branch c a b # k') s =
        (k', fst (exec_instr (Branch c a b) s), snd (exec_instr (Branch c a b) s))"
      by simp
    then show ?thesis ..
  qed
next
  case (3 s)
  have "task_steps 0 ([] @ k') s = (k', fst (exec_list [] s), snd (exec_list [] s))"
    by simp
  then show ?case ..
next
  case (4 i k s)
  from "4.IH"(1) [of "k @ k'"] obtain n1 where n1:
    "task_steps n1 (i # k @ k') s = (k @ k', fst (exec_instr i s), snd (exec_instr i s))" ..
  from "4.IH"(2) [OF refl prod.collapse, of k'] obtain n2 where n2:
    "task_steps n2 (k @ k') (fst (exec_instr i s)) =
       (k', fst (exec_list k (fst (exec_instr i s))), snd (exec_list k (fst (exec_instr i s))))" ..
  have "task_steps (n1 + n2) ((i # k) @ k') s =
      (k', fst (exec_list (i # k) s), snd (exec_list (i # k) s))"
    by (simp add: task_steps_add n1 n2 exec_list_Cons del: exec_list.simps(2))
  then show ?case ..
qed

lemma interleaved_Cons:
  "interleaved (m # ms) c =
     (fst (interleaved ms (fst (move_step m c))),
      snd (move_step m c) @ snd (interleaved ms (fst (move_step m c))))"
  by (simp add: case_prod_beta)

lemma interleaved_append:
  "interleaved (ms @ ms') c =
     (fst (interleaved ms' (fst (interleaved ms c))),
      snd (interleaved ms c) @ snd (interleaved ms' (fst (interleaved ms c))))"
  by (induction ms arbitrary: c) (simp_all add: interleaved_Cons del: interleaved.simps(2))

lemma interleaved_task_steps:
  "interleaved (replicate n TaskStep) (t, r, s) =
     ((fst (task_steps n t s), r, fst (snd (task_steps n t s))), snd (snd (task_steps n t s)))"
  by (induction n arbitrary: t s)
     (simp_all add: interleaved_Cons case_prod_beta del: interleaved.simps(2))

lemma interleaved_router_steps:
  "interleaved (replicate n RouterStep) (t, r, s) =
     ((t, fst (task_steps n r s), fst (snd (task_steps n r s))), snd (snd (task_steps n r s)))"
  by (induction n arbitrary: r s)
     (simp_all add: interleaved_Cons case_prod_beta del: interleaved.simps(2))

lemma step_is_interleaved:
  "\<exists>ms. interleaved ms ([], [], s) = (([], [], fst (step a s)), snd (step a s))"
proof (cases a)
  case (Tick v)
  from task_steps_exec_list [of "ir_sensor_prog v" "[]" s] obtain n where
    "task_steps n (ir_sensor_prog v) s = ([], fst (ir_sensor_tick v s), snd (ir_sensor_tick v s))"
    by (auto simp: ir_sensor_prog_exec)
  then have "interleaved (Begin v # replicate n TaskStep) ([], [], s) =
      (([], [], fst (step a s)), snd (step a s))"
    by (simp add: interleaved_Cons interleaved_task_steps Tick del: interleaved.simps(2))
  then show ?thesis ..
next
  case (Write dev_name param_name val)
  from task_steps_exec_list [of "write_cb_prog dev_name param_name val" "[]" s] obtain n where
    "task_steps n (write_cb_prog dev_name param_name val) s =
       ([], fst (snd (write_cb dev_name param_name val s)),
        snd (snd (write_cb dev_name param_name val s)))"
    by (auto simp: write_cb_prog_exec)
  then have "interleaved (Call dev_name param_name val # replicate n RouterStep) ([], [], s) =
      (([], [], fst (step a s)), snd (step a s))"
    by (simp add: interleaved_Cons interleaved_router_steps Write del: interleaved.simps(2))
  then show ?thesis ..
qed

lemma run_is_interleaved:
  "\<exists>ms. interleaved ms ([], [], s) = (([], [], fst (run acts s)), snd (run acts s))"
proof (induction acts arbitrary: s)
  case Nil
  have "interleaved [] ([], [], s) = (([], [], fst (run [] s)), snd (run [] s))"
    by simp
  then show ?case ..
next
  case (Cons a acts)
  from step_is_interleaved [of s a] obtain ms1 where ms1:
    "interleaved ms1 ([], [], s) = (([], [], fst (step a s)), snd (step a s))" ..
  from Cons.IH [of "fst (step a s)"] obtain ms2 where ms2:
    "interleaved ms2 ([], [], fst (step a s)) =
       (([], [], fst (run acts (fst (step a s)))), snd (run acts (fst (step a s))))" ..
  have "interleaved (ms1 @ ms2) ([], [], s) =
      (([], [], fst (run (a # acts) s)), snd (run (a # acts) s))"
    by (simp add: interleaved_append ms1 ms2 run_Cons)
  then show ?case ..
qed

lemma arm_and_open_config:
  "fst (interleaved arm_and_open (start True True lines_ok)) = ([], [], alarm_ringing)"
  by (simp add: arm_and_open_def start_def fst_interleaved_Cons prog_defs alarm_ringing_eq
        boot_def sdk_defs param_defs lines_ok_def fun_eq_iff del: interleaved.simps(2))

lemma preempting_disarm_config:
  "fst (interleaved preempting_disarm (start True True lines_ok)) =
     ([], [],
      alarm_ringing\<lparr>alarm_enabled := False,
        sink := [light_power \<mapsto> BoolVal False, alarm_power \<mapsto> BoolVal False,
                 door_status \<mapsto> StrVal ''CLOSED'', alarm_triggered \<mapsto> BoolVal True]\<rparr>)"
  by (simp add: preempting_disarm_def start_def fst_interleaved_Cons prog_defs alarm_ringing_eq
        boot_def sdk_defs param_defs lines_ok_def fun_eq_iff del: interleaved.simps(2))

section \<open>Unrecognised writes\<close>

text \<open>
  C9. A write whose device and parameter names are neither ("Home Light", "Power") nor
  ("Alarm System", "Power") changes nothing, makes no call at all (so no sink push), and
  returns \<open>ESP_OK\<close>.
\<close>

theorem write_cb_unrecognized:
  assumes "(dev_name, param_name) \<noteq> (''Home Light'', ''Power'')"
    and "(dev_name, param_name) \<noteq> (''Alarm System'', ''Power'')"
  shows "write_cb dev_name param_name val s = (ESP_OK, s, [])"
  using assms by (auto simp: write_cb_def)

theorem write_cb_unrecognized_witness:
  "(''Door Sensor Status'', ''Door Status'') \<noteq> (''Home Light'', ''Power'')
   \<and> (''Door Sensor Status'', ''Door Status'') \<noteq> (''Alarm System'', ''Power'')
   \<and> write_cb ''Door Sensor Status'' ''Door Status'' True (boot True True (\<lambda>_. ESP_OK))
       = (ESP_OK, boot True True (\<lambda>_. ESP_OK), [])"
  using write_cb_unrecognized [of "''Door Sensor Status''" "''Door Status''" True
      "boot True True (\<lambda>_. ESP_OK)"]
  by simp

section \<open>The armed, door-open iteration\<close>

text \<open>
  C2. In an iteration that starts with the alarm armed and reads the sensor as 1 (both
  status handles created), the calls after the edge handling are exactly: the push of
  "Alarm Triggered" = true, buzzer on, LED to the inverse of \<open>led_state\<close>, 150 ms, LED back
  to \<open>led_state\<close>, 150 ms, and then one alert (with its diagnostic event) unless the latch
  \<open>notification_sent\<close> was already set in this open episode. An iteration that started with
  the latch clear raises exactly one alert. The latch is set afterwards, and the iteration
  has no 200 ms delay.
\<close>

theorem armed_open_tick:
  assumes "alarm_enabled s"
    and "door_status_param s = Some door_status"
    and "alarm_trigger_param s = Some alarm_triggered"
  shows "snd (ir_sensor_tick 1 s) =
      (if previous_sensor_state s = 1 then []
       else [DiagEvent ''DOOR_ACTION'' ''Door Sensor: OPENED'',
             ParamUpdate door_status (StrVal ''OPENED'')])
      @ [ParamUpdate alarm_triggered (BoolVal True),
         GpioSet BUZZER_GPIO 1,
         GpioSet LED_GPIO (level_of (\<not> led_state s)),
         Delay 150,
         GpioSet LED_GPIO (level_of (led_state s)),
         Delay 150]
      @ (if notification_sent s \<and> previous_sensor_state s = 1 then []
         else [RaiseAlert ''Door opened while alarm is ON!'',
               DiagEvent ''SECURITY_ALERT'' ''Intrusion detected''])
    \<and> length (filter is_alert (snd (ir_sensor_tick 1 s))) =
           (if notification_sent s \<and> previous_sensor_state s = 1 then 0 else 1)
    \<and> Delay 200 \<notin> set (snd (ir_sensor_tick 1 s))
    \<and> notification_sent (fst (ir_sensor_tick 1 s))
    \<and> sink (fst (ir_sensor_tick 1 s)) alarm_triggered = Some (BoolVal True)
    \<and> (gpio_set_level_rc s BUZZER_GPIO = ESP_OK \<longrightarrow>
          buzzer_level (fst (ir_sensor_tick 1 s)) = 1)
    \<and> (gpio_set_level_rc s LED_GPIO = ESP_OK \<longrightarrow>
          led_level (fst (ir_sensor_tick 1 s)) = level_of (led_state s))"
proof -
  let ?s1 = "fst (door_state_handling 1 s)"
  have ev: "snd (ir_sensor_tick 1 s) =
      (if previous_sensor_state s = 1 then []
       else [DiagEvent ''DOOR_ACTION'' ''Door Sensor: OPENED'',
             ParamUpdate door_status (StrVal ''OPENED'')])
      @ [ParamUpdate alarm_triggered (BoolVal True),
         GpioSet BUZZER_GPIO 1,
         GpioSet LED_GPIO (level_of (\<not> led_state s)),
         Delay 150,
         GpioSet LED_GPIO (level_of (led_state s)),
         Delay 150]
      @ (if notification_sent s \<and> previous_sensor_state s = 1 then []
         else [RaiseAlert ''Door opened while alarm is ON!'',
               DiagEvent ''SECURITY_ALERT'' ''Intrusion detected''])"
    using assms
    by (simp add: ir_sensor_tick_events alarm_behavior_events alarm_triggered_branch_events
          door_state_handling_events door_state_handling_frame push_ev_def)
  have st: "fst (ir_sensor_tick 1 s) = fst (alarm_triggered_branch ?s1)"
    using assms(1) by (simp add: ir_sensor_tick_state alarm_behavior_state door_state_handling_frame)
  have alerts: "length (filter is_alert (snd (ir_sensor_tick 1 s))) =
           (if notification_sent s \<and> previous_sensor_state s = 1 then 0 else 1)"
    by (simp add: ev is_alert_def)
  have nodelay: "Delay 200 \<notin> set (snd (ir_sensor_tick 1 s))"
    by (simp add: ev)
  have latch: "notification_sent (fst (ir_sensor_tick 1 s))"
    by (simp add: st alarm_triggered_branch_state)
  have alert: "sink (fst (ir_sensor_tick 1 s)) alarm_triggered = Some (BoolVal True)"
    using assms(3)
    by (simp add: st alarm_triggered_branch_state door_state_handling_frame push_val_def)
  have buzzer: "gpio_set_level_rc s BUZZER_GPIO = ESP_OK \<longrightarrow>
          buzzer_level (fst (ir_sensor_tick 1 s)) = 1"
    by (simp add: st alarm_triggered_branch_state door_state_handling_frame line_after_def)
  have led: "gpio_set_level_rc s LED_GPIO = ESP_OK \<longrightarrow>
          led_level (fst (ir_sensor_tick 1 s)) = level_of (led_state s)"
    by (simp add: st alarm_triggered_branch_state door_state_handling_frame line_after_def)
  from ev alerts nodelay latch alert buzzer led show ?thesis by blast
qed

theorem armed_open_tick_witness:
  "alarm_enabled (fst (snd (write_cb ''Alarm System'' ''Power'' True (boot True True lines_ok))))
   \<and> snd (ir_sensor_tick 1
        (fst (snd (write_cb ''Alarm System'' ''Power'' True (boot True True lines_ok))))) =
       [DiagEvent ''DOOR_ACTION'' ''Door Sensor: OPENED'',
        ParamUpdate door_status (StrVal ''OPENED''),
        ParamUpdate alarm_triggered (BoolVal True),
        GpioSet BUZZER_GPIO 1,
        GpioSet LED_GPIO 1,
        Delay 150,
        GpioSet LED_GPIO 0,
        Delay 150,
        RaiseAlert ''Door opened while alarm is ON!'',
        DiagEvent ''SECURITY_ALERT'' ''Intrusion detected'']
   \<and> notification_sent (fst (ir_sensor_tick 1
        (fst (snd (write_cb ''Alarm System'' ''Power'' True (boot True True lines_ok))))))
   \<and> buzzer_level (fst (ir_sensor_tick 1
        (fst (snd (write_cb ''Alarm System'' ''Power'' True (boot True True lines_ok)))))) = 1"
  using armed_open_tick
    [of "fst (snd (write_cb ''Alarm System'' ''Power'' True (boot True True lines_ok)))"]
  by (simp add: write_cb_alarm_on boot_def lines_ok_def level_of_def)

section \<open>Disarming through the router\<close>

text \<open>
  C5. A write of false to ("Alarm System", "Power"), whatever the state (so also when the
  alarm was armed), does all of this inside the call, with both status handles created:
  it clears \<open>alarm_enabled\<close>, pushes "Door Status" = "CLOSED" and "Alarm Triggered" = false,
  writes the buzzer line low and the LED line to \<open>led_state\<close>, and last echoes the written
  value to the alarm's "Power" parameter. The callback has no sensor input, and the
  variables of the task are untouched.
\<close>

theorem disarm_write:
  assumes "door_status_param s = Some door_status"
    and "alarm_trigger_param s = Some alarm_triggered"
  shows "write_cb ''Alarm System'' ''Power'' False s =
     (ESP_OK,
      s\<lparr>alarm_enabled := False,
        led_level := (if gpio_set_level_rc s LED_GPIO = ESP_OK then level_of (led_state s)
                      else led_level s),
        buzzer_level := (if gpio_set_level_rc s BUZZER_GPIO = ESP_OK then 0 else buzzer_level s),
        sink := (sink s)(door_status \<mapsto> StrVal ''CLOSED'',
                         alarm_triggered \<mapsto> BoolVal False,
                         alarm_power \<mapsto> BoolVal False)\<rparr>,
      [DiagEvent ''ALARM_ACTION'' ''Alarm System set to: OFF'',
       ParamUpdate door_status (StrVal ''CLOSED''),
       ParamUpdate alarm_triggered (BoolVal False),
       GpioSet BUZZER_GPIO 0,
       GpioSet LED_GPIO (level_of (led_state s)),
       ParamUpdate alarm_power (BoolVal False)])"
  using assms by (simp add: write_cb_alarm_off push_val_def push_ev_def line_after_def)

theorem disarm_write_witness:
  "alarm_enabled alarm_ringing
   \<and> previous_sensor_state alarm_ringing = 1
   \<and> buzzer_level alarm_ringing = 1
   \<and> sink alarm_ringing alarm_triggered = Some (BoolVal True)
   \<and> snd (snd (write_cb ''Alarm System'' ''Power'' False alarm_ringing)) =
      [DiagEvent ''ALARM_ACTION'' ''Alarm System set to: OFF'',
       ParamUpdate door_status (StrVal ''CLOSED''),
       ParamUpdate alarm_triggered (BoolVal False),
       GpioSet BUZZER_GPIO 0,
       GpioSet LED_GPIO 0,
       ParamUpdate alarm_power (BoolVal False)]
   \<and> \<not> alarm_enabled (fst (snd (write_cb ''Alarm System'' ''Power'' False alarm_ringing)))
   \<and> buzzer_level (fst (snd (write_cb ''Alarm System'' ''Power'' False alarm_ringing))) = 0
   \<and> sink (fst (snd (write_cb ''Alarm System'' ''Power'' False alarm_ringing))) alarm_triggered
        = Some (BoolVal False)
   \<and> sink (fst (snd (write_cb ''Alarm System'' ''Power'' False alarm_ringing))) door_status
        = Some (StrVal ''CLOSED'')"
  using disarm_write [of alarm_ringing]
  by (simp add: alarm_ringing_eq level_of_def lines_ok_def param_defs)

section \<open>Edge detection\<close>

text \<open>
  C6. When the sensor value read differs from \<open>previous_sensor_state\<close> (at boot that is
  \<open>-1\<close>, so the first reading always differs), part 1 of the iteration stores the new
  value, pushes it as "Door Status" ("OPENED" for 1, "CLOSED" otherwise) and clears
  \<open>notification_sent\<close>; for a value other than 1 it also pushes "Alarm Triggered" = false.
  These calls are the first of the iteration, and the stored value is still the new one at
  its end.
\<close>

theorem door_edge:
  assumes "sensor_value \<noteq> previous_sensor_state s"
    and "door_status_param s = Some door_status"
    and "alarm_trigger_param s = Some alarm_triggered"
  shows "previous_sensor_state (fst (door_state_handling sensor_value s)) = sensor_value
    \<and> \<not> notification_sent (fst (door_state_handling sensor_value s))
    \<and> snd (door_state_handling sensor_value s) =
        (if sensor_value = 1
         then [DiagEvent ''DOOR_ACTION'' ''Door Sensor: OPENED'',
               ParamUpdate door_status (StrVal ''OPENED'')]
         else [DiagEvent ''DOOR_ACTION'' ''Door Sensor: CLOSED'',
               ParamUpdate door_status (StrVal ''CLOSED''),
               ParamUpdate alarm_triggered (BoolVal False)])
    \<and> sink (fst (door_state_handling sensor_value s)) door_status =
        Some (StrVal (if sensor_value = 1 then ''OPENED'' else ''CLOSED''))
    \<and> (sensor_value \<noteq> 1 \<longrightarrow>
          sink (fst (door_state_handling sensor_value s)) alarm_triggered = Some (BoolVal False))
    \<and> snd (ir_sensor_tick sensor_value s) =
        snd (door_state_handling sensor_value s)
        @ snd (alarm_behavior sensor_value (fst (door_state_handling sensor_value s)))
    \<and> previous_sensor_state (fst (ir_sensor_tick sensor_value s)) = sensor_value"
  using assms
  by (simp add: door_state_handling_state door_state_handling_events push_val_def push_ev_def
        ir_sensor_tick_events ir_sensor_tick_state alarm_behavior_frame param_defs)

theorem door_edge_witness:
  "(0::int) \<noteq> previous_sensor_state (boot True True lines_ok)
   \<and> previous_sensor_state (fst (ir_sensor_tick 0 (boot True True lines_ok))) = 0
   \<and> snd (door_state_handling 0 (boot True True lines_ok)) =
        [DiagEvent ''DOOR_ACTION'' ''Door Sensor: CLOSED'',
         ParamUpdate door_status (StrVal ''CLOSED''),
         ParamUpdate alarm_triggered (BoolVal False)]
   \<and> sink (fst (door_state_handling 0 (boot True True lines_ok))) door_status =
        Some (StrVal ''CLOSED'')"
  using door_edge [of 0 "boot True True lines_ok"]
  by (simp add: boot_def)

section \<open>The disarmed iteration\<close>

text \<open>
  C7. In every iteration that starts with the alarm disarmed, whatever the sensor reads and
  with both status handles created, the calls after the edge handling are exactly: push
  "Door Status" = "CLOSED", push "Alarm Triggered" = false, buzzer line low, LED line to
  \<open>led_state\<close>, 200 ms delay. Running the same iteration (same sensor value) a second time
  leaves the whole state as the first one left it, and its only calls are those five, each
  push carrying the value the sink already holds. The alarm-off reset alone, applied twice,
  also gives the state it gives once.
\<close>

theorem disarmed_tick:
  assumes "\<not> alarm_enabled s"
    and "door_status_param s = Some door_status"
    and "alarm_trigger_param s = Some alarm_triggered"
  shows "snd (ir_sensor_tick v s) =
        snd (door_state_handling v s)
        @ [ParamUpdate door_status (StrVal ''CLOSED''),
           ParamUpdate alarm_triggered (BoolVal False),
           GpioSet BUZZER_GPIO 0,
           GpioSet LED_GPIO (level_of (led_state s)),
           Delay 200]
    \<and> sink (fst (ir_sensor_tick v s)) door_status = Some (StrVal ''CLOSED'')
    \<and> sink (fst (ir_sensor_tick v s)) alarm_triggered = Some (BoolVal False)
    \<and> (gpio_set_level_rc s BUZZER_GPIO = ESP_OK \<longrightarrow> buzzer_level (fst (ir_sensor_tick v s)) = 0)
    \<and> (gpio_set_level_rc s LED_GPIO = ESP_OK \<longrightarrow>
          led_level (fst (ir_sensor_tick v s)) = level_of (led_state s))
    \<and> fst (ir_sensor_tick v (fst (ir_sensor_tick v s))) = fst (ir_sensor_tick v s)
    \<and> snd (ir_sensor_tick v (fst (ir_sensor_tick v s))) =
        [ParamUpdate door_status (StrVal ''CLOSED''),
         ParamUpdate alarm_triggered (BoolVal False),
         GpioSet BUZZER_GPIO 0,
         GpioSet LED_GPIO (level_of (led_state s)),
         Delay 200]
    \<and> fst (alarm_off_reset (fst (alarm_off_reset s))) = fst (alarm_off_reset s)"
proof -
  let ?s1 = "fst (door_state_handling v s)"
  let ?t = "fst (ir_sensor_tick v s)"
  have st: "?t = fst (alarm_off_reset ?s1)"
    using assms(1) by (rule tick_disarmed_state)
  have ev: "snd (ir_sensor_tick v s) =
        snd (door_state_handling v s)
        @ [ParamUpdate door_status (StrVal ''CLOSED''),
           ParamUpdate alarm_triggered (BoolVal False),
           GpioSet BUZZER_GPIO 0,
           GpioSet LED_GPIO (level_of (led_state s)),
           Delay 200]"
    using assms
    by (simp add: ir_sensor_tick_events alarm_behavior_events alarm_off_reset_events
          door_state_handling_frame push_ev_def)
  have door: "sink ?t door_status = Some (StrVal ''CLOSED'')"
    using assms
    by (simp add: st alarm_off_reset_state door_state_handling_frame push_val_def param_defs)
  have alert: "sink ?t alarm_triggered = Some (BoolVal False)"
    using assms
    by (simp add: st alarm_off_reset_state door_state_handling_frame push_val_def)
  have buzzer: "gpio_set_level_rc s BUZZER_GPIO = ESP_OK \<longrightarrow> buzzer_level ?t = 0"
    by (simp add: st alarm_off_reset_state door_state_handling_frame line_after_def)
  have led: "gpio_set_level_rc s LED_GPIO = ESP_OK \<longrightarrow> led_level ?t = level_of (led_state s)"
    by (simp add: st alarm_off_reset_state door_state_handling_frame line_after_def)
  have t_frame: "\<not> alarm_enabled ?t" "previous_sensor_state ?t = v"
    "door_status_param ?t = Some door_status" "alarm_trigger_param ?t = Some alarm_triggered"
    "led_state ?t = led_state s"
    using assms by (simp_all add: st alarm_off_reset_frame door_state_handling_frame)
  have same: "door_state_handling v ?t = (?t, [])"
    using t_frame(2) by (rule door_state_handling_same)
  have idem: "fst (ir_sensor_tick v ?t) = ?t"
  proof -
    have "fst (ir_sensor_tick v ?t) = fst (alarm_off_reset ?t)"
      using t_frame(1) by (simp add: tick_disarmed_state same)
    also have "\<dots> = ?t"
      by (simp add: st alarm_off_reset_idem)
    finally show ?thesis .
  qed
  have ev2: "snd (ir_sensor_tick v ?t) =
        [ParamUpdate door_status (StrVal ''CLOSED''),
         ParamUpdate alarm_triggered (BoolVal False),
         GpioSet BUZZER_GPIO 0,
         GpioSet LED_GPIO (level_of (led_state s)),
         Delay 200]"
    using t_frame
    by (simp add: ir_sensor_tick_events same alarm_behavior_events alarm_off_reset_events
          push_ev_def)
  have reset_idem: "fst (alarm_off_reset (fst (alarm_off_reset s))) = fst (alarm_off_reset s)"
    by (rule alarm_off_reset_idem)
  from ev door alert buzzer led idem ev2 reset_idem show ?thesis by blast
qed

theorem disarmed_tick_witness:
  "\<not> alarm_enabled (boot True True lines_ok)
   \<and> snd (ir_sensor_tick 1 (boot True True lines_ok)) =
       [DiagEvent ''DOOR_ACTION'' ''Door Sensor: OPENED'',
        ParamUpdate door_status (StrVal ''OPENED''),
        ParamUpdate door_status (StrVal ''CLOSED''),
        ParamUpdate alarm_triggered (BoolVal False),
        GpioSet BUZZER_GPIO 0,
        GpioSet LED_GPIO 0,
        Delay 200]
   \<and> snd (ir_sensor_tick 1 (fst (ir_sensor_tick 1 (boot True True lines_ok)))) =
       [ParamUpdate door_status (StrVal ''CLOSED''),
        ParamUpdate alarm_triggered (BoolVal False),
        GpioSet BUZZER_GPIO 0,
        GpioSet LED_GPIO 0,
        Delay 200]
   \<and> fst (ir_sensor_tick 1 (fst (ir_sensor_tick 1 (boot True True lines_ok)))) =
       fst (ir_sensor_tick 1 (boot True True lines_ok))"
  using disarmed_tick [of "boot True True lines_ok" 1]
  by (simp add: boot_def door_state_handling_events push_ev_def level_of_def)

section \<open>Light writes and the GPIO result\<close>


section \<open>The alert parameter over all executions\<close>

text \<open>
  A disarming call that lands inside an armed, door-open iteration, after the test of
  \<open>alarm_enabled\<close> and before the push: the router pushes "Alarm Triggered" = false, then the
  iteration pushes true. When the iteration has ended (task and router both idle), the
  parameter reads true and the alarm is off.
\<close>

theorem disarm_inside_iteration_counterexample:
  "fst (fst (interleaved preempting_disarm (start True True lines_ok))) = []
   \<and> fst (snd (fst (interleaved preempting_disarm (start True True lines_ok)))) = []
   \<and> sink (state_of (fst (interleaved preempting_disarm (start True True lines_ok))))
        alarm_triggered = Some (BoolVal True)
   \<and> \<not> alarm_enabled (state_of (fst (interleaved preempting_disarm (start True True lines_ok))))"
  by (simp add: preempting_disarm_config state_of_def alarm_ringing_eq)

text \<open>
  C1 (amended). At every point of every execution from boot, router calls landing between
  any two statements of an iteration included, "Alarm Triggered" = true implies that the
  stored door state is open. In every serial execution (each iteration and each router call
  runs to completion before the next begins; these are executions of the same machine) it
  also implies that the alarm is armed.
\<close>

theorem alert_param_invariant:
  "(sink (state_of (fst (interleaved ms (start door_ok trig_ok rc)))) alarm_triggered
      = Some (BoolVal True) \<longrightarrow>
    previous_sensor_state (state_of (fst (interleaved ms (start door_ok trig_ok rc)))) = 1)
   \<and> (sink (fst (run acts (boot door_ok trig_ok rc))) alarm_triggered = Some (BoolVal True) \<longrightarrow>
        alarm_enabled (fst (run acts (boot door_ok trig_ok rc)))
        \<and> previous_sensor_state (fst (run acts (boot door_ok trig_ok rc))) = 1)
   \<and> (\<exists>ms'. interleaved ms' (start door_ok trig_ok rc) =
          (([], [], fst (run acts (boot door_ok trig_ok rc))),
           snd (run acts (boot door_ok trig_ok rc))))"
proof -
  have a: "sink (state_of (fst (interleaved ms (start door_ok trig_ok rc)))) alarm_triggered
      = Some (BoolVal True) \<longrightarrow>
    previous_sensor_state (state_of (fst (interleaved ms (start door_ok trig_ok rc)))) = 1"
    using interleaved_latch_inv [of ms door_ok trig_ok rc] by (simp add: latch_inv_def)
  have b: "sink (fst (run acts (boot door_ok trig_ok rc))) alarm_triggered = Some (BoolVal True) \<longrightarrow>
        alarm_enabled (fst (run acts (boot door_ok trig_ok rc)))
        \<and> previous_sensor_state (fst (run acts (boot door_ok trig_ok rc))) = 1"
    using run_alert_inv [OF boot_alert_inv, of acts door_ok trig_ok rc]
    by (simp add: alert_inv_def)
  have c: "\<exists>ms'. interleaved ms' (start door_ok trig_ok rc) =
          (([], [], fst (run acts (boot door_ok trig_ok rc))),
           snd (run acts (boot door_ok trig_ok rc)))"
    using run_is_interleaved [of "boot door_ok trig_ok rc" acts] by (simp add: start_def)
  from a b c show ?thesis by blast
qed

theorem alert_param_invariant_witness:
  "sink alarm_ringing alarm_triggered = Some (BoolVal True)
   \<and> state_of (fst (interleaved arm_and_open (start True True lines_ok))) = alarm_ringing
   \<and> alarm_enabled alarm_ringing
   \<and> previous_sensor_state alarm_ringing = 1"
  using alert_param_invariant
    [of arm_and_open True True lines_ok "[Write ''Alarm System'' ''Power'' True, Tick 1]",
     folded alarm_ringing_def]
  by (simp add: arm_and_open_config state_of_def alarm_ringing_eq param_defs)

section \<open>The notification latch and disarming\<close>

text \<open>
  The latch \<open>notification_sent\<close> is a local of the task; \<open>write_cb\<close> cannot reach it. After
  arming, one iteration with the door open and a disarming write, the latch is still set
  while the alarm is off. And when the disarming call lands inside that iteration after its
  test of \<open>alarm_enabled\<close>, the alert parameter is true at its end while the alarm is off.
\<close>

theorem latch_survives_disarm_counterexample:
  "notification_sent (fst (snd (write_cb ''Alarm System'' ''Power'' False alarm_ringing)))
   \<and> \<not> alarm_enabled (fst (snd (write_cb ''Alarm System'' ''Power'' False alarm_ringing)))
   \<and> \<not> notification_sent (boot True True lines_ok)
   \<and> sink (state_of (fst (interleaved preempting_disarm (start True True lines_ok))))
        alarm_triggered = Some (BoolVal True)
   \<and> \<not> alarm_enabled (state_of (fst (interleaved preempting_disarm (start True True lines_ok))))"
  by (simp add: write_cb_alarm_off alarm_ringing_eq boot_def preempting_disarm_config
        state_of_def)

text \<open>
  C3 (amended). At every point of every execution from boot, router calls landing between
  any two statements of an iteration included, "Alarm Triggered" reads true only while the
  stored door state is open, and \<open>notification_sent\<close> is set only while the stored door state
  is open; so both are false again as soon as the stored door state has left open. No
  router write, disarming included, changes the latch.
\<close>

theorem latch_and_alert_need_open_door:
  "(sink (state_of (fst (interleaved ms (start door_ok trig_ok rc)))) alarm_triggered
      = Some (BoolVal True) \<longrightarrow>
    previous_sensor_state (state_of (fst (interleaved ms (start door_ok trig_ok rc)))) = 1)
   \<and> (notification_sent (state_of (fst (interleaved ms (start door_ok trig_ok rc)))) \<longrightarrow>
        previous_sensor_state (state_of (fst (interleaved ms (start door_ok trig_ok rc)))) = 1)
   \<and> notification_sent (fst (snd (write_cb dev_name param_name val s))) = notification_sent s
   \<and> obeys_list (write_cb_prog dev_name param_name val)"
  using interleaved_latch_inv [of ms door_ok trig_ok rc]
  by (simp add: latch_inv_def write_cb_task_locals write_cb_prog_obeys)

theorem latch_and_alert_need_open_door_witness:
  "state_of (fst (interleaved arm_and_open (start True True lines_ok))) = alarm_ringing
   \<and> sink alarm_ringing alarm_triggered = Some (BoolVal True)
   \<and> notification_sent alarm_ringing
   \<and> previous_sensor_state alarm_ringing = 1
   \<and> notification_sent (fst (snd (write_cb ''Alarm System'' ''Power'' False alarm_ringing)))"
  using latch_and_alert_need_open_door
    [of arm_and_open True True lines_ok "''Alarm System''" "''Power''" False alarm_ringing]
  by (simp add: arm_and_open_config state_of_def alarm_ringing_eq param_defs)

section \<open>One alert per open episode\<close>

text \<open>
  C4. Whenever the sensor value differs from the stored one, part 1 of the iteration clears
  \<open>notification_sent\<close> (in both directions; at the end of that iteration the latch is set
  again exactly when the alarm is armed and the door has just opened, by the alert raised in
  it). In any stretch of an execution in which every iteration reads the door open, whatever
  writes arrive in between and from whatever state it starts, \<open>esp_rmaker_raise_alert\<close> is
  called at most once.
\<close>

theorem one_alert_per_open_episode:
  "(sensor_value \<noteq> previous_sensor_state s \<longrightarrow>
      \<not> notification_sent (fst (door_state_handling sensor_value s))
      \<and> notification_sent (fst (ir_sensor_tick sensor_value s)) =
          (alarm_enabled s \<and> sensor_value = 1))
   \<and> (open_episode acts \<longrightarrow> length (filter is_alert (snd (run acts s))) \<le> 1)"
  using run_alerts_le [of acts s]
  by (simp add: door_state_handling_frame tick_task_locals)

theorem one_alert_per_open_episode_witness:
  "(1::int) \<noteq> previous_sensor_state (boot True True lines_ok)
   \<and> \<not> notification_sent (fst (door_state_handling 1 (boot True True lines_ok)))
   \<and> open_episode [Write ''Alarm System'' ''Power'' True, Tick 1, Tick 1, Tick 1,
        Write ''Alarm System'' ''Power'' False, Tick 1, Write ''Alarm System'' ''Power'' True,
        Tick 1]
   \<and> length (filter is_alert (snd (run
        [Write ''Alarm System'' ''Power'' True, Tick 1, Tick 1, Tick 1,
         Write ''Alarm System'' ''Power'' False, Tick 1, Write ''Alarm System'' ''Power'' True,
         Tick 1] (boot True True lines_ok)))) \<le> 1"
  using one_alert_per_open_episode
    [of 1 "boot True True lines_ok"
        "[Write ''Alarm System'' ''Power'' True, Tick 1, Tick 1, Tick 1,
          Write ''Alarm System'' ''Power'' False, Tick 1, Write ''Alarm System'' ''Power'' True,
          Tick 1]"]
  by (simp add: open_episode_def boot_def)

section \<open>Re-arming while the door stays open\<close>

text \<open>
  C10. Neither a router write (the disarm reset included) nor the alarm-off reset of an
  iteration changes \<open>previous_sensor_state\<close>. Hence, once the stored door state is open,
  no further "OPENED" push happens while every iteration keeps reading the door open,
  whatever disarm and re-arm writes arrive; and once the alert of the episode has been
  raised (the latch is set), no further alert is raised either.
\<close>

theorem rearm_with_door_open:
  "previous_sensor_state (fst (snd (write_cb dev_name param_name val s))) = previous_sensor_state s
   \<and> previous_sensor_state (fst (alarm_off_reset s)) = previous_sensor_state s
   \<and> (open_episode acts \<and> previous_sensor_state s = 1 \<longrightarrow>
        filter is_opened_push (snd (run acts s)) = [])
   \<and> (open_episode acts \<and> previous_sensor_state s = 1 \<and> notification_sent s \<longrightarrow>
        filter is_alert (snd (run acts s)) = [])"
  by (simp add: write_cb_task_locals alarm_off_reset_frame run_stays_open run_latched)

theorem rearm_with_door_open_witness:
  "open_episode [Write ''Alarm System'' ''Power'' False, Tick 1,
                 Write ''Alarm System'' ''Power'' True, Tick 1, Tick 1]
   \<and> previous_sensor_state alarm_ringing = 1
   \<and> notification_sent alarm_ringing
   \<and> filter is_opened_push (snd (run
        [Write ''Alarm System'' ''Power'' False, Tick 1,
         Write ''Alarm System'' ''Power'' True, Tick 1, Tick 1] alarm_ringing)) = []
   \<and> filter is_alert (snd (run
        [Write ''Alarm System'' ''Power'' False, Tick 1,
         Write ''Alarm System'' ''Power'' True, Tick 1, Tick 1] alarm_ringing)) = []"
  using rearm_with_door_open
    [of "''Alarm System''" "''Power''" False alarm_ringing
        "[Write ''Alarm System'' ''Power'' False, Tick 1,
          Write ''Alarm System'' ''Power'' True, Tick 1, Tick 1]"]
  by (simp add: open_episode_def alarm_ringing_eq)

end
